theory Spec2Isabelle
  imports Complex_Main "HOL-Library.Word" "HOL-Library.Product_Lexorder"
begin

unbundle bit_operations_syntax

section \<open>Single-frame LiDAR segmentation: the data model of \<open>algo/frame.py\<close>\<close>

text \<open>
  The module works on NumPy arrays. The embedding keeps one list per array and
  follows these conventions.
  \<^item> A finite float64 value is a \<open>real\<close>. A float operation whose result is not
    a finite number (a division by zero, \<open>arcsin\<close> outside \<open>[-1, 1]\<close>) yields
    \<open>None\<close>, which stands for \<open>nan\<close> and the infinities, and so does everything
    computed from it. No such operation raises: NumPy only warns.
  \<^item> \<open>astype(np.int16)\<close> never raises either. It truncates towards zero and keeps
    the low 16 bits of the truncated value; a value that is not finite or does
    not fit 32 bits becomes 0 (the conversion NumPy performs on x86-64).
  \<^item> Arithmetic on \<open>int16\<close> and \<open>uint16\<close> values is written on \<open>int\<close> and \<open>nat\<close> with
    the wrap-around spelled out (\<open>wrap16\<close>, \<open>wrap_u16\<close>). A Python integer that
    does not fit the array's type raises \<open>OverflowError\<close>, as NumPy 2 does.
  \<^item> \<open>util.plane_fit\<close> is not part of the module. Every operation that calls it
    takes the fitter as a parameter; \<open>None\<close> means that the fitter raised.
\<close>

type_synonym point = "real \<times> real \<times> real"

type_synonym plane_fitter = "point list \<Rightarrow> (real \<times> real \<times> real) option"

datatype error =
    ValueError
  | OverflowError
  | ZeroDivisionError
  | AttributeError
  | PlaneFitError

record config =
  lidar_height :: real
  max_theta :: real
  theta_grid_size :: real
  min_dist :: real
  dist_grid_size :: real
  n_dist_grids :: int
  n_angular_grids :: int
  dz_local :: real
  dz_global :: real
  max_slope :: real
  min_grd_pts :: int
  min_samples :: int
  base_h_cut :: real
  h_max_cut :: real
  h_grid_size :: real

record raw_point =
  px :: real
  py :: real
  pz :: real
  pr :: real
  invalid :: bool

text \<open>
  The attributes \<open>theta\<close>, \<open>x_idx\<close> and \<open>y_idx\<close> exist only once \<open>gridding\<close> has
  run; before that they are \<open>None\<close> and reading them is an \<open>AttributeError\<close>. An
  entry of \<open>theta\<close> is \<open>None\<close> when the angle of the point is \<open>nan\<close>.
\<close>

record frame =
  n_points :: nat
  pos :: "point list"
  intensities :: "real list"
  h_arr :: "real list"
  distXY :: "real list"
  flags :: "8 word list"
  cid_arr :: "nat list"
  grd_par :: point
  theta :: "real option list option"
  x_idx :: "int list option"
  y_idx :: "int list option"

definition IS_NOISE :: "8 word" where "IS_NOISE = 1"
definition IS_GROUND :: "8 word" where "IS_GROUND = 2"
definition IS_BKG :: "8 word" where "IS_BKG = 4"
definition IS_VEHCLE :: "8 word" where "IS_VEHCLE = 8"
definition IS_SIGN :: "8 word" where "IS_SIGN = 16"
definition IS_PED :: "8 word" where "IS_PED = 32"

subsection \<open>NumPy primitives\<close>

text \<open>\<open>arr[idxs] = vals\<close> where \<open>vals\<close> was computed before the assignment.\<close>

definition scatter :: "nat list \<Rightarrow> (nat \<Rightarrow> 'a) \<Rightarrow> 'a list \<Rightarrow> 'a list" where
  "scatter idxs g xs = fold (\<lambda>i ys. ys[i := g i]) idxs xs"

text \<open>\<open>np.where(mask)[0]\<close> for a mask over the \<open>n\<close> points.\<close>

definition where_idx :: "nat \<Rightarrow> (nat \<Rightarrow> bool) \<Rightarrow> nat list" where
  "where_idx n m = filter m [0..<n]"

text \<open>\<open>x.clip(lo, hi)\<close> is \<open>minimum(maximum(x, lo), hi)\<close>, also when \<open>lo > hi\<close>.\<close>

definition clip :: "real \<Rightarrow> real \<Rightarrow> real \<Rightarrow> real" where
  "clip v lo hi = min (max v lo) hi"

definition wrap16 :: "int \<Rightarrow> int" where
  "wrap16 v = (v + 32768) mod 65536 - 32768"

definition wrap_u16 :: "nat \<Rightarrow> nat" where
  "wrap_u16 v = v mod 65536"

text \<open>\<open>np.abs(a - b) < 2\<close> on \<open>int16\<close> operands.\<close>

definition near16 :: "int \<Rightarrow> int \<Rightarrow> bool" where
  "near16 a b \<longleftrightarrow> wrap16 \<bar>wrap16 (a - b)\<bar> < 2"

definition fdiv :: "real \<Rightarrow> real \<Rightarrow> real option" where
  "fdiv a b = (if b = 0 then None else Some (a / b))"

definition farcsin :: "real \<Rightarrow> real option" where
  "farcsin r = (if \<bar>r\<bar> \<le> 1 then Some (arcsin r) else None)"

definition trunc :: "real \<Rightarrow> int" where
  "trunc v = (if 0 \<le> v then \<lfloor>v\<rfloor> else \<lceil>v\<rceil>)"

definition astype_int16 :: "real option \<Rightarrow> int" where
  "astype_int16 v =
     (case v of None \<Rightarrow> 0
      | Some q \<Rightarrow>
          (let t = trunc q
           in if - 2147483648 \<le> t \<and> t \<le> 2147483647 then wrap16 t else 0))"

text \<open>A \<open>for\<close> loop whose body may raise: the first error ends the loop.\<close>

fun for_each :: "'a list \<Rightarrow> ('a \<Rightarrow> 's \<Rightarrow> error + 's) \<Rightarrow> 's \<Rightarrow> error + 's" where
  "for_each [] body s = Inr s"
| "for_each (x # xs) body s =
     (case body x s of Inl e \<Rightarrow> Inl e | Inr s' \<Rightarrow> for_each xs body s')"

text \<open>\<open>range(a, b)\<close> on Python integers.\<close>

definition py_range :: "int \<Rightarrow> int \<Rightarrow> int list" where
  "py_range a b = [a..b - 1]"

subsection \<open>Construction\<close>

definition Frame_init :: "raw_point list \<Rightarrow> config \<Rightarrow> frame" where
  "Frame_init pts cfg =
     (let valid = filter (\<lambda>p. \<not> invalid p) pts;
          n = length valid;
          ps = map (\<lambda>p. (px p, py p, pz p)) valid
      in \<lparr> n_points = n,
           pos = ps,
           intensities = map pr valid,
           h_arr = replicate n 0,
           distXY = map (\<lambda>(x, y, z). sqrt (x ^ 2 + y ^ 2)) ps,
           flags = replicate n 0,
           cid_arr = replicate n 0,
           grd_par = (0, 0, - lidar_height cfg),
           theta = None,
           x_idx = None,
           y_idx = None \<rparr>)"

text \<open>
  The arrays of a frame are index-aligned and of length \<open>n_points\<close>; the bins, once
  present, are \<open>int16\<close> values.
\<close>

definition int16 :: "int \<Rightarrow> bool" where
  "int16 v \<longleftrightarrow> - 32768 \<le> v \<and> v \<le> 32767"

definition aligned :: "frame \<Rightarrow> bool" where
  "aligned f \<longleftrightarrow>
     length (pos f) = n_points f \<and> length (intensities f) = n_points f \<and>
     length (h_arr f) = n_points f \<and> length (distXY f) = n_points f \<and>
     length (flags f) = n_points f \<and> length (cid_arr f) = n_points f"

definition gridded :: "frame \<Rightarrow> int list \<Rightarrow> int list \<Rightarrow> bool" where
  "gridded f xi yi \<longleftrightarrow>
     aligned f \<and> x_idx f = Some xi \<and> y_idx f = Some yi \<and>
     length xi = n_points f \<and> length yi = n_points f \<and>
     list_all int16 xi \<and> list_all int16 yi"

subsection \<open>Grid Indexer: \<open>Frame.gridding\<close>\<close>

definition theta_of :: "point \<Rightarrow> real \<Rightarrow> real option" where
  "theta_of p d = (case p of (x, y, z) \<Rightarrow>
     (case fdiv x d of None \<Rightarrow> None | Some r \<Rightarrow> farcsin r))"

text \<open>\<open>(theta + max_theta) / theta_grid_size\<close> and
  \<open>(distXY - min_dist) / dist_grid_size\<close>, before the cast.\<close>

definition angular_quotient :: "config \<Rightarrow> real option \<Rightarrow> real option" where
  "angular_quotient cfg th =
     (case th of None \<Rightarrow> None
      | Some t \<Rightarrow> fdiv (t + max_theta cfg) (theta_grid_size cfg))"

definition range_quotient :: "config \<Rightarrow> real \<Rightarrow> real option" where
  "range_quotient cfg d = fdiv (d - min_dist cfg) (dist_grid_size cfg)"

definition angular_bin :: "config \<Rightarrow> real option \<Rightarrow> int" where
  "angular_bin cfg th = astype_int16 (angular_quotient cfg th)"

definition range_bin :: "config \<Rightarrow> real \<Rightarrow> int" where
  "range_bin cfg d = astype_int16 (range_quotient cfg d)"

text \<open>The three statements are elementwise and have no error path: the method
  always returns, with an angle (possibly \<open>nan\<close>) and two bins for every point.\<close>

definition gridding :: "config \<Rightarrow> frame \<Rightarrow> error + frame" where
  "gridding cfg f =
     (let ths = map2 theta_of (pos f) (distXY f)
      in Inr (f\<lparr> theta := Some ths,
                  x_idx := Some (map (angular_bin cfg) ths),
                  y_idx := Some (map (range_bin cfg) (distXY f)) \<rparr>))"

subsection \<open>Ground Estimator: \<open>Frame.ground_detection\<close>\<close>

definition height_above :: "real \<times> real \<times> real \<Rightarrow> point \<Rightarrow> real" where
  "height_above pl p =
     (case pl of (a, b, c) \<Rightarrow> case p of (x, y, z) \<Rightarrow> z - a * x - b * y - c)"

definition is_candidate :: "config \<Rightarrow> frame \<Rightarrow> nat \<Rightarrow> bool" where
  "is_candidate cfg f i \<longleftrightarrow>
     \<bar>snd (snd (pos f ! i)) + lidar_height cfg\<bar>
       < clip (distXY f ! i * max_slope cfg) (dz_local cfg) (dz_global cfg)"

definition grd_candidates :: "config \<Rightarrow> frame \<Rightarrow> nat list" where
  "grd_candidates cfg f = where_idx (length (pos f)) (is_candidate cfg f)"

text \<open>Lines 47 to 60: the global fit and the seed ground points (Phase A).\<close>

definition global_fit :: "config \<Rightarrow> plane_fitter \<Rightarrow> frame \<Rightarrow> error + frame" where
  "global_fit cfg fit f =
     (let fl0 = replicate (n_points f) (0 :: 8 word);
          cands = grd_candidates cfg f
      in case fit (map (\<lambda>i. pos f ! i) cands) of
           None \<Rightarrow> Inl PlaneFitError
         | Some pl \<Rightarrow>
             (let h = map (height_above pl) (pos f);
                  seed = filter (\<lambda>i. h ! i < dz_local cfg) cands
              in Inr (f\<lparr> flags := scatter seed (\<lambda>i. fl0 ! i OR IS_GROUND) fl0,
                           h_arr := h \<rparr>)))"

text \<open>
  Lines 68 to 91: one cell \<open>(ix, iy)\<close> of the local refinement. \<open>ix\<close> is a Python
  integer subtracted from an \<open>int16\<close> array.
\<close>

definition local_height :: "real \<times> real \<times> real \<Rightarrow> point \<Rightarrow> real" where
  "local_height pl p =
     (case pl of (a, b, c) \<Rightarrow> case p of (x, y, z) \<Rightarrow> z - (x * a + y * b) - c)"

definition on_local_plane :: "config \<Rightarrow> real \<Rightarrow> bool" where
  "on_local_plane cfg h \<longleftrightarrow> h > - dz_global cfg \<and> h < dz_local cfg"

definition to_fit_idx :: "int list \<Rightarrow> int list \<Rightarrow> int \<Rightarrow> int \<Rightarrow> frame \<Rightarrow> nat list" where
  "to_fit_idx xi yi iy ix f =
     filter (\<lambda>i. flags f ! i AND IS_GROUND > 0)
       (where_idx (length xi) (\<lambda>i. near16 (xi ! i) ix \<and> near16 (yi ! i) iy))"

definition local_idx :: "int list \<Rightarrow> int list \<Rightarrow> int \<Rightarrow> int \<Rightarrow> nat list" where
  "local_idx xi yi iy ix = where_idx (length xi) (\<lambda>i. xi ! i = ix \<and> yi ! i = iy)"

definition refine_cell ::
  "config \<Rightarrow> plane_fitter \<Rightarrow> int list \<Rightarrow> int list \<Rightarrow> int \<Rightarrow> int \<Rightarrow> frame \<Rightarrow> error + frame"
where
  "refine_cell cfg fit xi yi iy ix f =
     (if \<not> int16 ix then Inl OverflowError
      else
        let to_fit = to_fit_idx xi yi iy ix f
        in if int (length to_fit) < min_grd_pts cfg then Inr f
           else
             (case fit (map (\<lambda>i. pos f ! i) to_fit) of
                None \<Rightarrow> Inl PlaneFitError
              | Some (a, b, c) \<Rightarrow>
                  (let pl = (clip a (- max_slope cfg) (max_slope cfg),
                             clip b (- max_slope cfg) (max_slope cfg), c);
                       loc = local_idx xi yi iy ix;
                       h = scatter loc (\<lambda>i. local_height pl (pos f ! i)) (h_arr f);
                       fl1 = scatter (filter (\<lambda>i. \<not> on_local_plane cfg (h ! i)) loc)
                               (\<lambda>i. 0) (flags f);
                       fl2 = scatter (filter (\<lambda>i. on_local_plane cfg (h ! i)) loc)
                               (\<lambda>i. fl1 ! i OR IS_GROUND) fl1
                   in Inr (f\<lparr> h_arr := h, flags := fl2 \<rparr>))))"

text \<open>Lines 63 to 68: one row \<open>iy\<close> of range bins.\<close>

definition refine_row ::
  "config \<Rightarrow> plane_fitter \<Rightarrow> int list option \<Rightarrow> int list \<Rightarrow> int \<Rightarrow> frame \<Rightarrow> error + frame"
where
  "refine_row cfg fit xo yi iy f =
     (if int (length (filter (\<lambda>y. y = iy) yi)) < min_grd_pts cfg then Inr f
      else if \<not> int16 iy then Inl OverflowError
      else
        (case xo of
           None \<Rightarrow> if n_angular_grids cfg \<le> 0 then Inr f else Inl AttributeError
         | Some xi \<Rightarrow>
             for_each (py_range 0 (n_angular_grids cfg)) (refine_cell cfg fit xi yi iy) f))"

definition local_refinement :: "config \<Rightarrow> plane_fitter \<Rightarrow> frame \<Rightarrow> error + frame" where
  "local_refinement cfg fit f =
     (case y_idx f of
        None \<Rightarrow> if n_dist_grids cfg \<le> 0 then Inr f else Inl AttributeError
      | Some yi \<Rightarrow>
          for_each (py_range 0 (n_dist_grids cfg)) (refine_row cfg fit (x_idx f) yi) f)"

definition ground_detection :: "config \<Rightarrow> plane_fitter \<Rightarrow> frame \<Rightarrow> error + frame" where
  "ground_detection cfg fit f =
     (case global_fit cfg fit f of
        Inl e \<Rightarrow> Inl e
      | Inr f1 \<Rightarrow> local_refinement cfg fit f1)"

subsection \<open>Cluster Builder: \<open>Frame.clustering\<close>\<close>

text \<open>\<open>.min()\<close> and \<open>.max()\<close> raise \<open>ValueError\<close> on an empty array.\<close>

definition array_min :: "int list \<Rightarrow> error + int" where
  "array_min xs = (case xs of [] \<Rightarrow> Inl ValueError | x # ys \<Rightarrow> Inr (fold min ys x))"

definition array_max :: "('a :: linorder) list \<Rightarrow> error + 'a" where
  "array_max xs = (case xs of [] \<Rightarrow> Inl ValueError | x # ys \<Rightarrow> Inr (fold max ys x))"

definition h_cut :: "config \<Rightarrow> frame \<Rightarrow> nat \<Rightarrow> bool" where
  "h_cut cfg f i \<longleftrightarrow> h_arr f ! i < base_h_cut cfg \<and> h_arr f ! i \<ge> dz_local cfg"

definition in_x :: "config \<Rightarrow> frame \<Rightarrow> int list \<Rightarrow> int \<Rightarrow> nat \<Rightarrow> bool" where
  "in_x cfg f xi ix i \<longleftrightarrow> xi ! i \<ge> ix - 1 \<and> xi ! i \<le> ix \<and> h_cut cfg f i"

definition in_y :: "config \<Rightarrow> frame \<Rightarrow> int list \<Rightarrow> int \<Rightarrow> nat \<Rightarrow> bool" where
  "in_y cfg f yi iy i \<longleftrightarrow> yi ! i \<ge> iy - 1 \<and> yi ! i \<le> iy \<and> h_cut cfg f i"

text \<open>
  Lines 107 to 119: one 2x2 block. The state is \<open>cid_arr\<close> and \<open>next_cid\<close>;
  \<open>cid_arr\<close> is a \<open>uint16\<close> array, so storing \<open>next_cid\<close> above 65535 raises.
\<close>

definition block_idx :: "config \<Rightarrow> frame \<Rightarrow> int list \<Rightarrow> int list \<Rightarrow> int \<Rightarrow> int \<Rightarrow> nat list" where
  "block_idx cfg f xi yi ix iy =
     where_idx (length xi) (\<lambda>i. in_x cfg f xi ix i \<and> in_y cfg f yi iy i)"

definition label_block ::
  "config \<Rightarrow> frame \<Rightarrow> int list \<Rightarrow> int list \<Rightarrow> int \<Rightarrow> int \<Rightarrow> nat list \<times> nat
     \<Rightarrow> error + nat list \<times> nat"
where
  "label_block cfg f xi yi ix iy st =
     (case st of (cids, next_cid) \<Rightarrow>
        let in_grid = block_idx cfg f xi yi ix iy;
            grid_samples = length in_grid
        in if grid_samples < 1 then Inr (cids, next_cid)
           else
             (case array_max (map (\<lambda>i. cids ! i) in_grid) of
                Inl e \<Rightarrow> Inl e
              | Inr cid \<Rightarrow>
                  if cid > 0 then Inr (scatter in_grid (\<lambda>i. cid) cids, next_cid)
                  else if int grid_samples \<ge> min_samples cfg then
                    (if next_cid > 65535 then Inl OverflowError
                     else Inr (scatter in_grid (\<lambda>i. next_cid) cids, next_cid + 1))
                  else Inr (cids, next_cid)))"

text \<open>
  Lines 102 to 106: one column \<open>ix\<close>. \<open>y_idx.min() + 1\<close> is an \<open>int16\<close> sum.
\<close>

definition label_column ::
  "config \<Rightarrow> frame \<Rightarrow> int list \<Rightarrow> int list option \<Rightarrow> int \<Rightarrow> nat list \<times> nat
     \<Rightarrow> error + nat list \<times> nat"
where
  "label_column cfg f xi yo ix st =
     (if length (where_idx (length xi) (in_x cfg f xi ix)) < 1 then Inr st
      else
        (case yo of
           None \<Rightarrow> Inl AttributeError
         | Some yi \<Rightarrow>
             (case array_min yi of
                Inl e \<Rightarrow> Inl e
              | Inr y_min \<Rightarrow>
                  (case array_max yi of
                     Inl e \<Rightarrow> Inl e
                   | Inr y_max \<Rightarrow>
                       for_each (py_range (wrap16 (y_min + 1)) y_max)
                         (label_block cfg f xi yi ix) st))))"

definition clustering :: "config \<Rightarrow> frame \<Rightarrow> error + frame" where
  "clustering cfg f =
     (case x_idx f of
        None \<Rightarrow> Inl AttributeError
      | Some xi \<Rightarrow>
          (case array_min xi of
             Inl e \<Rightarrow> Inl e
           | Inr x_min \<Rightarrow>
               (case array_max xi of
                  Inl e \<Rightarrow> Inl e
                | Inr x_max \<Rightarrow>
                    (case for_each (py_range (wrap16 (x_min + 1)) x_max)
                            (label_column cfg f xi (y_idx f))
                            (replicate (n_points f) 0, 1) of
                       Inl e \<Rightarrow> Inl e
                     | Inr (cids, next_cid) \<Rightarrow> Inr (f\<lparr> cid_arr := cids \<rparr>)))))"

subsection \<open>Cluster Grower: \<open>Frame.grow_cluster\<close>\<close>

text \<open>\<open>np.arange(start, stop, step)\<close> on floats.\<close>

definition arange :: "real \<Rightarrow> real \<Rightarrow> real \<Rightarrow> error + real list" where
  "arange start stop step =
     (if step = 0 then Inl ZeroDivisionError
      else Inr (map (\<lambda>k. start + real k * step) [0..<nat \<lceil>(stop - start) / step\<rceil>]))"

text \<open>\<open>np.unique(rows, axis=0)\<close>: the distinct rows in lexicographic order.\<close>

definition unique_rows :: "(int \<times> int) list \<Rightarrow> (int \<times> int) list" where
  "unique_rows rows = remdups (sort rows)"

definition connect_layer :: "config \<Rightarrow> frame \<Rightarrow> nat \<Rightarrow> bool" where
  "connect_layer cfg f i \<longleftrightarrow> h_arr f ! i > base_h_cut cfg - dz_global cfg"

definition in_layer :: "config \<Rightarrow> frame \<Rightarrow> real \<Rightarrow> nat \<Rightarrow> bool" where
  "in_layer cfg f h0 i \<longleftrightarrow> h_arr f ! i \<ge> h0 \<and> h_arr f ! i < h0 + h_grid_size cfg"

text \<open>
  Lines 139 to 145: one cell of the footprint. The state is \<open>cid_arr\<close> and the
  mask \<open>sel_arr\<close>.
\<close>

definition mark_nearby ::
  "config \<Rightarrow> frame \<Rightarrow> int list \<Rightarrow> int list \<Rightarrow> nat \<Rightarrow> real \<Rightarrow> int \<times> int
     \<Rightarrow> nat list \<times> bool list \<Rightarrow> nat list \<times> bool list"
where
  "mark_nearby cfg f xi yi cid h0 g st =
     (case g of (ix, iy) \<Rightarrow> case st of (cids, sel_arr) \<Rightarrow>
        let nearby = map (\<lambda>i. near16 (xi ! i) ix \<and> near16 (yi ! i) iy \<and> in_layer cfg f h0 i)
                       [0..<length xi]
        in (scatter (where_idx (length xi) (\<lambda>i. nearby ! i)) (\<lambda>i. cid) cids,
            map2 (\<or>) sel_arr nearby))"

text \<open>Lines 136 to 151: the layers of one cluster, with the \<open>break\<close>.\<close>

fun grow_layers ::
  "config \<Rightarrow> frame \<Rightarrow> int list \<Rightarrow> int list \<Rightarrow> nat \<Rightarrow> real list \<Rightarrow> (int \<times> int) list
     \<Rightarrow> nat list \<Rightarrow> nat list"
where
  "grow_layers cfg f xi yi cid [] grids cids = cids"
| "grow_layers cfg f xi yi cid (h0 # hs) grids cids =
     (case fold (mark_nearby cfg f xi yi cid h0) grids
             (cids, replicate (length cids) False) of
        (cids', sel_arr) \<Rightarrow>
          if length (filter (\<lambda>b. b) sel_arr) < 1 then cids'
          else grow_layers cfg f xi yi cid hs
                 (unique_rows (map (\<lambda>i. (xi ! i, yi ! i))
                    (where_idx (length sel_arr) (\<lambda>i. sel_arr ! i))))
                 cids')"

text \<open>Lines 129 to 151: one cluster id.\<close>

definition grow_one ::
  "config \<Rightarrow> frame \<Rightarrow> int list \<Rightarrow> int list \<Rightarrow> nat \<Rightarrow> nat list \<Rightarrow> error + nat list"
where
  "grow_one cfg f xi yi cid cids =
     (let seeds = where_idx (length cids) (\<lambda>i. connect_layer cfg f i \<and> cids ! i = cid)
      in if length seeds < 1 then Inr cids
         else
           (case arange (base_h_cut cfg) (h_max_cut cfg) (h_grid_size cfg) of
              Inl e \<Rightarrow> Inl e
            | Inr hs \<Rightarrow>
                Inr (grow_layers cfg f xi yi cid hs
                       (unique_rows (map (\<lambda>i. (xi ! i, yi ! i)) seeds)) cids)))"

text \<open>
  Line 128: \<open>cid_arr.max() + 1\<close> is a \<open>uint16\<close> sum; the range is built once.
\<close>

definition grow_cluster :: "config \<Rightarrow> frame \<Rightarrow> error + frame" where
  "grow_cluster cfg f =
     (case x_idx f of
        None \<Rightarrow> Inl AttributeError
      | Some xi \<Rightarrow>
          (case y_idx f of
             None \<Rightarrow> Inl AttributeError
           | Some yi \<Rightarrow>
               (case array_max (cid_arr f) of
                  Inl e \<Rightarrow> Inl e
                | Inr m \<Rightarrow>
                    (case for_each (map nat (py_range 1 (int (wrap_u16 (m + 1)))))
                            (grow_one cfg f xi yi) (cid_arr f) of
                       Inl e \<Rightarrow> Inl e
                     | Inr cids \<Rightarrow> Inr (f\<lparr> cid_arr := cids \<rparr>)))))"

subsection \<open>The plane fitter\<close>

text \<open>
  Modelled from the spec: \<open>util.plane_fit\<close> is imported by the module and is not
  part of it. The spec gives \<open>fit(points) -> (a, b, c)\<close> minimising the sum of
  squared residuals of \<open>z - a*x - b*y - c\<close>, with the result left open for fewer
  than three points or collinear input. \<open>plane_fit_ls\<close> solves the normal
  equations by Cramer's rule and returns \<open>None\<close> where they have no unique
  solution. The operations above take the fitter as a parameter; this one is
  used only to run them on concrete frames.
\<close>

definition det3 ::
  "real \<Rightarrow> real \<Rightarrow> real \<Rightarrow> real \<Rightarrow> real \<Rightarrow> real \<Rightarrow> real \<Rightarrow> real \<Rightarrow> real \<Rightarrow> real"
where
  "det3 a b c d e f g h i =
     a * (e * i - f * h) - b * (d * i - f * g) + c * (d * h - e * g)"

definition plane_fit_ls :: plane_fitter where
  "plane_fit_ls ps =
     (let n = real (length ps);
          sx = sum_list (map (\<lambda>(x, y, z). x) ps);
          sy = sum_list (map (\<lambda>(x, y, z). y) ps);
          sz = sum_list (map (\<lambda>(x, y, z). z) ps);
          sxx = sum_list (map (\<lambda>(x, y, z). x * x) ps);
          sxy = sum_list (map (\<lambda>(x, y, z). x * y) ps);
          syy = sum_list (map (\<lambda>(x, y, z). y * y) ps);
          sxz = sum_list (map (\<lambda>(x, y, z). x * z) ps);
          syz = sum_list (map (\<lambda>(x, y, z). y * z) ps);
          d = det3 sxx sxy sx sxy syy sy sx sy n
      in if d = 0 then None
         else Some (det3 sxz sxy sx syz syy sy sz sy n / d,
                    det3 sxx sxz sx sxy syz sy sx sz n / d,
                    det3 sxx sxy sxz sxy syy syz sx sy sz / d))"

subsection \<open>Concrete frames\<close>

text \<open>
  A sensor mounted 2 m above the ground; four returns on the flat ground around
  it and one return 7 m above the ground at 8 m range. The bins are those of
  \<open>gridding\<close> for \<open>max_theta = 4\<close>, \<open>theta_grid_size = 2\<close>, \<open>min_dist = 0\<close> and
  \<open>dist_grid_size = 1\<close>.
\<close>

definition road_cfg :: "real \<Rightarrow> int \<Rightarrow> config" where
  "road_cfg dzg mgp =
     \<lparr> lidar_height = 2, max_theta = 4, theta_grid_size = 2, min_dist = 0,
       dist_grid_size = 1, n_dist_grids = 12, n_angular_grids = 4, dz_local = 1,
       dz_global = dzg, max_slope = 1, min_grd_pts = mgp, min_samples = 1,
       base_h_cut = 3, h_max_cut = 9, h_grid_size = 2 \<rparr>"


definition road_frame :: frame where
  "road_frame =
     \<lparr> n_points = 5,
       pos = [(1, 0, - 2), (- 10, 0, - 2), (0, 1, - 2), (0, - 1, - 2), (8, 0, 5)],
       intensities = [0, 0, 0, 0, 0],
       h_arr = [0, 0, 0, 0, 0],
       distXY = [1, 10, 1, 1, 8],
       flags = [0, 0, 0, 0, 0],
       cid_arr = [0, 0, 0, 0, 0],
       grd_par = (0, 0, - 2),
       theta = Some [Some (pi / 2), Some (- (pi / 2)), Some 0, Some 0, Some (pi / 2)],
       x_idx = Some [2, 1, 2, 2, 2],
       y_idx = Some [1, 10, 1, 1, 8] \<rparr>"

text \<open>
  The same scene after the global fit, with one more return 5 m above the ground
  in the cell of the third and fourth point; it carries the noise bit.
\<close>

definition kerb_frame :: frame where
  "kerb_frame =
     \<lparr> n_points = 6,
       pos = [(1, 0, - 2), (- 10, 0, - 2), (0, 1, - 2), (0, - 1, - 2), (8, 0, 5), (0, 1, 3)],
       intensities = [0, 0, 0, 0, 0, 0],
       h_arr = [0, 0, 0, 0, 7, 5],
       distXY = [1, 10, 1, 1, 8, 1],
       flags = [2, 2, 2, 2, 0, 1],
       cid_arr = [0, 0, 0, 0, 0, 0],
       grd_par = (0, 0, - 2),
       theta = Some [Some (pi / 2), Some (- (pi / 2)), Some 0, Some 0, Some (pi / 2),
                    Some 0],
       x_idx = Some [2, 1, 2, 2, 2, 2],
       y_idx = Some [1, 10, 1, 1, 8, 1] \<rparr>"



definition origin_pts :: "raw_point list" where
  "origin_pts = [\<lparr> px = 0, py = 0, pz = - 2, pr = 0, invalid = False \<rparr>]"


text \<open>
  The ground points counted as \<open>visualize\<close> does (lines 159 to 161).
\<close>

definition ground_count :: "frame \<Rightarrow> nat" where
  "ground_count f = length (filter (\<lambda>w. w AND IS_GROUND > 0) (flags f))"

text \<open>
  The flat scene of the sensor 2 m above the ground with four more returns at
  8 m range, two of them 2.5 m above and two 2.5 m below the ground plane.
\<close>

definition verge_frame :: frame where
  "verge_frame =
     \<lparr> n_points = 8,
       pos = [(1, 0, - 2), (- 1, 0, - 2), (0, 1, - 2), (0, - 1, - 2),
              (8, 0, 1 / 2), (- 8, 0, 1 / 2), (0, 8, - 9 / 2), (0, - 8, - 9 / 2)],
       intensities = [0, 0, 0, 0, 0, 0, 0, 0],
       h_arr = [0, 0, 0, 0, 0, 0, 0, 0],
       distXY = [1, 1, 1, 1, 8, 8, 8, 8],
       flags = [0, 0, 0, 0, 0, 0, 0, 0],
       cid_arr = [0, 0, 0, 0, 0, 0, 0, 0],
       grd_par = (0, 0, - 2),
       theta = None,
       x_idx = None,
       y_idx = None \<rparr>"

text \<open>
  A batch whose only point is flagged invalid, and a fitter that returns the
  horizontal plane through the ground for every input, the empty one included.
\<close>

definition void_pts :: "raw_point list" where
  "void_pts = [\<lparr> px = 3, py = 4, pz = - 2, pr = 0, invalid = True \<rparr>]"

definition flat_fit :: plane_fitter where
  "flat_fit ps = Some (0, 0, - 2)"

text \<open>
  The sweep in the spec's words: the angular bin runs from its minimum plus one
  to its maximum, the maximum excluded, and for each the range bin likewise; every
  pair \<open>(ix, iy)\<close> stands for the block \<open>[ix-1, ix] x [iy-1, iy]\<close>.
\<close>

definition sweep_blocks :: "int list \<Rightarrow> int list \<Rightarrow> (int \<times> int) list" where
  "sweep_blocks xi yi =
     concat (map (\<lambda>ix. map (\<lambda>iy. (ix, iy)) [Min (set yi) + 1..Max (set yi) - 1])
               [Min (set xi) + 1..Max (set xi) - 1])"

text \<open>
  The points of the block \<open>[ix-1, ix] x [iy-1, iy]\<close> that belong to the
  height-filtered subset \<open>[dz_local, base_h_cut)\<close>.
\<close>

definition block_members :: "config \<Rightarrow> frame \<Rightarrow> int list \<Rightarrow> int list \<Rightarrow> int \<Rightarrow> int \<Rightarrow> nat set" where
  "block_members cfg f xi yi ix iy =
     {i. i < length xi \<and> dz_local cfg \<le> h_arr f ! i \<and> h_arr f ! i < base_h_cut cfg
         \<and> ix - 1 \<le> xi ! i \<and> xi ! i \<le> ix \<and> iy - 1 \<le> yi ! i \<and> yi ! i \<le> iy}"

text \<open>
  The Cluster Builder as one pass over the blocks of the sweep, from all ids zero
  and the counter at one.
\<close>

definition builder_sweep ::
  "config \<Rightarrow> frame \<Rightarrow> int list \<Rightarrow> int list \<Rightarrow> error + nat list \<times> nat" where
  "builder_sweep cfg f xi yi =
     for_each (sweep_blocks xi yi) (\<lambda>b. label_block cfg f xi yi (fst b) (snd b))
       (replicate (length xi) 0, 1)"

text \<open>
  A block triggers an allocation when it is occupied, none of its points carries
  an id, and its occupancy reaches \<open>min_samples\<close>. \<open>issued_ids\<close> lists, in sweep
  order, the id that the points of each such block carry once the block is done.
\<close>

definition allocates :: "config \<Rightarrow> frame \<Rightarrow> int list \<Rightarrow> int list \<Rightarrow> int \<times> int \<Rightarrow> nat list \<Rightarrow> bool" where
  "allocates cfg f xi yi b cids \<longleftrightarrow>
     (let in_grid = block_idx cfg f xi yi (fst b) (snd b)
      in in_grid \<noteq> [] \<and> (\<forall>i \<in> set in_grid. cids ! i = 0)
         \<and> min_samples cfg \<le> int (length in_grid))"

fun issued_ids ::
  "config \<Rightarrow> frame \<Rightarrow> int list \<Rightarrow> int list \<Rightarrow> (int \<times> int) list \<Rightarrow> nat list \<times> nat \<Rightarrow> nat list"
where
  "issued_ids cfg f xi yi [] st = []"
| "issued_ids cfg f xi yi (b # bs) st =
     (case label_block cfg f xi yi (fst b) (snd b) st of
        Inl e \<Rightarrow> []
      | Inr st' \<Rightarrow>
          (if allocates cfg f xi yi b (fst st)
           then [fst st' ! hd (block_idx cfg f xi yi (fst b) (snd b))] else [])
          @ issued_ids cfg f xi yi bs st')"

text \<open>
  The points that carry a cluster id.
\<close>

definition labelled :: "nat list \<Rightarrow> nat set" where
  "labelled cids = {i. i < length cids \<and> cids ! i \<noteq> 0}"

text \<open>
  A sensor 2 m above flat ground with three ground returns, two low objects at
  1 m and 3 m range straight ahead, and two returns 3.5 m above the ground over
  and between them. \<open>street_frame\<close> is the frame after \<open>gridding\<close> and
  \<open>ground_detection\<close>.
\<close>

definition street_cfg :: config where
  "street_cfg =
     \<lparr> lidar_height = 2, max_theta = 0, theta_grid_size = 1, min_dist = 0,
       dist_grid_size = 1, n_dist_grids = 7, n_angular_grids = 2, dz_local = 1,
       dz_global = 2, max_slope = 1, min_grd_pts = 3, min_samples = 1,
       base_h_cut = 3, h_max_cut = 9, h_grid_size = 2 \<rparr>"

definition street_pts :: "raw_point list" where
  "street_pts =
     [\<lparr> px = 0, py = 1, pz = 0, pr = 0, invalid = False \<rparr>,
      \<lparr> px = 0, py = 3, pz = 0, pr = 0, invalid = False \<rparr>,
      \<lparr> px = 6, py = 0, pz = - 2, pr = 0, invalid = False \<rparr>,
      \<lparr> px = - 1, py = 0, pz = - 2, pr = 0, invalid = False \<rparr>,
      \<lparr> px = 0, py = 1, pz = 3 / 2, pr = 0, invalid = False \<rparr>,
      \<lparr> px = 0, py = 2, pz = 3 / 2, pr = 0, invalid = False \<rparr>,
      \<lparr> px = 0, py = 5, pz = - 2, pr = 0, invalid = False \<rparr>]"

definition street_frame :: frame where
  "street_frame =
     \<lparr> n_points = 7,
       pos = [(0, 1, 0), (0, 3, 0), (6, 0, - 2), (- 1, 0, - 2), (0, 1, 3 / 2), (0, 2, 3 / 2),
              (0, 5, - 2)],
       intensities = [0, 0, 0, 0, 0, 0, 0],
       h_arr = [2, 2, 0, 0, 7 / 2, 7 / 2, 0],
       distXY = [1, 3, 6, 1, 1, 2, 5],
       flags = [0, 0, 2, 2, 0, 0, 2],
       cid_arr = [0, 0, 0, 0, 0, 0, 0],
       grd_par = (0, 0, - 2),
       theta = Some [Some 0, Some 0, Some (pi / 2), Some (- (pi / 2)), Some 0, Some 0,
                    Some 0],
       x_idx = Some [0, 0, 1, - 1, 0, 0, 0],
       y_idx = Some [1, 3, 6, 1, 1, 2, 5] \<rparr>"


definition layer_starts :: "config \<Rightarrow> real list" where
  "layer_starts cfg =
     map (\<lambda>k. base_h_cut cfg + real k * h_grid_size cfg)
       [0..<nat \<lceil>(h_max_cut cfg - base_h_cut cfg) / h_grid_size cfg\<rceil>]"







definition hit :: "config \<Rightarrow> frame \<Rightarrow> int list \<Rightarrow> int list \<Rightarrow> real \<Rightarrow> int \<times> int \<Rightarrow> nat \<Rightarrow> bool" where
  "hit cfg f xi yi h0 g i \<longleftrightarrow>
     near16 (xi ! i) (fst g) \<and> near16 (yi ! i) (snd g) \<and> in_layer cfg f h0 i"

text \<open>
  \<open>street_frame\<close> after \<open>clustering\<close>: the two low objects carry the ids 1 and 2.
\<close>

definition grown_street :: frame where
  "grown_street = street_frame\<lparr> cid_arr := [1, 2, 0, 0, 0, 0, 0] \<rparr>"







section \<open>Properties\<close>

text \<open>
  \<open>pi\<close> stays a symbol when a concrete frame is evaluated: the bins and heights
  are rational, only the stored angles mention it.
\<close>

declare pi_def [code del]

subsection \<open>Array primitives\<close>

lemma length_scatter: "length (scatter idxs g xs) = length xs"
  unfolding scatter_def by (induction idxs arbitrary: xs) simp_all

lemma nth_scatter:
  "i < length xs \<Longrightarrow> scatter idxs g xs ! i = (if i \<in> set idxs then g i else xs ! i)"
  unfolding scatter_def
proof (induction idxs arbitrary: xs rule: rev_induct)
  case Nil
  then show ?case by simp
next
  case (snoc j js)
  have len: "length (fold (\<lambda>i ys. ys[i := g i]) js xs) = length xs"
    using length_scatter [of js g xs] by (simp add: scatter_def)
  show ?case using snoc len by (cases "i = j") (simp_all add: nth_list_update)
qed

lemma set_where_idx: "set (where_idx n m) = {i. i < n \<and> m i}"
  by (auto simp: where_idx_def)

lemma wrap16_id: "int16 v \<Longrightarrow> wrap16 v = v"
  by (simp add: wrap16_def int16_def)

lemma int16_wrap16: "int16 (wrap16 v)"
  by (simp add: wrap16_def int16_def)

subsection \<open>Ground Estimator, Phase A\<close>

text \<open>
  C1. A point is a ground candidate exactly when \<open>|z + mount_height|\<close> is below
  \<open>range_xy * max_slope\<close> clipped to \<open>[dz_local, dz_global]\<close>. When the fitter
  returns the plane \<open>(a, b, c)\<close> for the candidates, the global fit stores
  \<open>z - a*x - b*y - c\<close> as the height of every point of the frame, and the ground
  bit is set on exactly the candidates whose height is below \<open>dz_local\<close>; every
  other flags byte is zero.
\<close>

theorem global_fit_phase_a:
  assumes al: "aligned f"
    and fit: "fit (map (\<lambda>i. pos f ! i) (grd_candidates cfg f)) = Some (a, b, c)"
  shows "\<exists>f'. global_fit cfg fit f = Inr f'
     \<and> length (h_arr f') = n_points f \<and> length (flags f') = n_points f
     \<and> (\<forall>i < n_points f. \<forall>x y z. pos f ! i = (x, y, z) \<longrightarrow>
           (i \<in> set (grd_candidates cfg f) \<longleftrightarrow>
              \<bar>z + lidar_height cfg\<bar>
                < clip (distXY f ! i * max_slope cfg) (dz_local cfg) (dz_global cfg))
         \<and> h_arr f' ! i = z - a * x - b * y - c
         \<and> (flags f' ! i AND IS_GROUND \<noteq> 0 \<longleftrightarrow>
              i \<in> set (grd_candidates cfg f) \<and> h_arr f' ! i < dz_local cfg)
         \<and> flags f' ! i = (if i \<in> set (grd_candidates cfg f) \<and> h_arr f' ! i < dz_local cfg
                            then IS_GROUND else 0))"
proof -
  let ?cands = "grd_candidates cfg f"
  let ?h = "map (height_above (a, b, c)) (pos f)"
  let ?seed = "filter (\<lambda>i. ?h ! i < dz_local cfg) ?cands"
  let ?fl0 = "replicate (n_points f) (0 :: 8 word)"
  let ?f' = "f\<lparr> flags := scatter ?seed (\<lambda>i. ?fl0 ! i OR IS_GROUND) ?fl0, h_arr := ?h \<rparr>"
  have n: "length (pos f) = n_points f" using al by (simp add: aligned_def)
  have run: "global_fit cfg fit f = Inr ?f'"
    using fit by (simp add: global_fit_def Let_def)
  have pt: "(i \<in> set ?cands \<longleftrightarrow>
              \<bar>z + lidar_height cfg\<bar>
                < clip (distXY f ! i * max_slope cfg) (dz_local cfg) (dz_global cfg))
         \<and> h_arr ?f' ! i = z - a * x - b * y - c
         \<and> (flags ?f' ! i AND IS_GROUND \<noteq> 0 \<longleftrightarrow>
              i \<in> set ?cands \<and> h_arr ?f' ! i < dz_local cfg)
         \<and> flags ?f' ! i = (if i \<in> set ?cands \<and> h_arr ?f' ! i < dz_local cfg
                            then IS_GROUND else 0)"
    if i: "i < n_points f" and p: "pos f ! i = (x, y, z)" for i x y z
  proof -
    have c: "i \<in> set ?cands \<longleftrightarrow>
              \<bar>z + lidar_height cfg\<bar>
                < clip (distXY f ! i * max_slope cfg) (dz_local cfg) (dz_global cfg)"
      using i p n by (simp add: grd_candidates_def set_where_idx is_candidate_def)
    have h: "h_arr ?f' ! i = z - a * x - b * y - c"
      using i p n by (simp add: height_above_def)
    have fl: "flags ?f' ! i = (if i \<in> set ?cands \<and> h_arr ?f' ! i < dz_local cfg
                            then IS_GROUND else 0)"
      using i by (simp add: nth_scatter)
    have g: "flags ?f' ! i AND IS_GROUND \<noteq> 0 \<longleftrightarrow>
              i \<in> set ?cands \<and> h_arr ?f' ! i < dz_local cfg"
      unfolding fl by (simp add: IS_GROUND_def)
    show ?thesis using c h fl g by blast
  qed
  have "length (h_arr ?f') = n_points f" using n by simp
  moreover have "length (flags ?f') = n_points f" by (simp add: length_scatter)
  ultimately show ?thesis using run pt by blast
qed

theorem global_fit_phase_a_witness:
  "aligned road_frame
   \<and> plane_fit_ls (map (\<lambda>i. pos road_frame ! i) (grd_candidates (road_cfg 2 10) road_frame))
       = Some (0, 0, - 2)
   \<and> (\<exists>f'. global_fit (road_cfg 2 10) plane_fit_ls road_frame = Inr f'
         \<and> h_arr f' ! 4 = 7 \<and> flags f' ! 4 = 0 \<and> flags f' ! 1 = IS_GROUND)"
proof -
  have al: "aligned road_frame"
    by (simp add: aligned_def road_frame_def)
  have cands: "grd_candidates (road_cfg 2 10) road_frame = [0, 1, 2, 3]"
    by code_simp
  have fit: "plane_fit_ls (map (\<lambda>i. pos road_frame ! i) (grd_candidates (road_cfg 2 10) road_frame))
       = Some (0, 0, - 2)"
    by code_simp
  have p4: "pos road_frame ! 4 = (8, 0, 5)" and p1: "pos road_frame ! 1 = (- 10, 0, - 2)"
    by (simp_all add: road_frame_def)
  have n: "n_points road_frame = 5" by (simp add: road_frame_def)
  have dzl: "dz_local (road_cfg 2 10) = 1" by (simp add: road_cfg_def)
  from global_fit_phase_a [where f = road_frame and fit = plane_fit_ls
      and cfg = "road_cfg 2 10", OF al fit]
  obtain f' where
    run: "global_fit (road_cfg 2 10) plane_fit_ls road_frame = Inr f'" and
    pt: "\<And>i x y z. i < n_points road_frame \<Longrightarrow> pos road_frame ! i = (x, y, z) \<Longrightarrow>
           h_arr f' ! i = z - 0 * x - 0 * y - (- 2)
         \<and> flags f' ! i = (if i \<in> set (grd_candidates (road_cfg 2 10) road_frame)
                               \<and> h_arr f' ! i < dz_local (road_cfg 2 10)
                            then IS_GROUND else 0)"
    by blast
  have "h_arr f' ! 4 = 7" "flags f' ! 4 = 0"
    using pt [of 4, OF _ p4] by (simp_all add: n cands)
  moreover have "flags f' ! 1 = IS_GROUND"
    using pt [of 1, OF _ p1] by (simp add: n cands dzl)
  ultimately show ?thesis using al fit run by blast
qed

subsection \<open>Ground Estimator, Phase B\<close>

lemma or_ground_and_ground: "(w OR IS_GROUND) AND IS_GROUND = IS_GROUND" for w :: "8 word"
  by (simp add: bit.conj_disj_distrib2)

lemma ground_bit_set: "(w OR IS_GROUND) AND IS_GROUND \<noteq> 0" for w :: "8 word"
  by (simp add: or_ground_and_ground) (simp add: IS_GROUND_def)

text \<open>
  C2. When Phase B refines the cell \<open>(ix, iy)\<close>, that is when at least
  \<open>min_grd_pts\<close> ground-flagged points lie in its 3x3 neighbourhood and the fitter
  returns \<open>(a, b, c)\<close> for them, every point of the cell gets the height of the
  local plane with clipped slopes; if that height lies in \<open>(-dz_global, dz_local)\<close>
  its ground bit is set, otherwise its whole flags byte becomes zero. Points
  outside the cell keep their height and flags.
\<close>

theorem refine_cell_relabels:
  assumes g: "gridded f xi yi"
    and ix: "int16 ix"
    and enough: "min_grd_pts cfg \<le> int (length (to_fit_idx xi yi iy ix f))"
    and fit: "fit (map (\<lambda>i. pos f ! i) (to_fit_idx xi yi iy ix f)) = Some (a, b, c)"
  shows "\<exists>f'. refine_cell cfg fit xi yi iy ix f = Inr f'
     \<and> length (h_arr f') = n_points f \<and> length (flags f') = n_points f
     \<and> (\<forall>i < n_points f. \<forall>x y z. pos f ! i = (x, y, z) \<longrightarrow>
          (if xi ! i = ix \<and> yi ! i = iy
           then h_arr f' ! i
                  = z - (x * clip a (- max_slope cfg) (max_slope cfg)
                         + y * clip b (- max_slope cfg) (max_slope cfg)) - c
                \<and> (if - dz_global cfg < h_arr f' ! i \<and> h_arr f' ! i < dz_local cfg
                    then flags f' ! i = flags f ! i OR IS_GROUND
                         \<and> flags f' ! i AND IS_GROUND \<noteq> 0
                    else flags f' ! i = 0)
           else h_arr f' ! i = h_arr f ! i \<and> flags f' ! i = flags f ! i))"
proof -
  let ?pl = "(clip a (- max_slope cfg) (max_slope cfg),
              clip b (- max_slope cfg) (max_slope cfg), c)"
  let ?loc = "local_idx xi yi iy ix"
  let ?h = "scatter ?loc (\<lambda>i. local_height ?pl (pos f ! i)) (h_arr f)"
  let ?fl1 = "scatter (filter (\<lambda>i. \<not> on_local_plane cfg (?h ! i)) ?loc) (\<lambda>i. 0) (flags f)"
  let ?fl2 = "scatter (filter (\<lambda>i. on_local_plane cfg (?h ! i)) ?loc)
                (\<lambda>i. ?fl1 ! i OR IS_GROUND) ?fl1"
  let ?f' = "f\<lparr> h_arr := ?h, flags := ?fl2 \<rparr>"
  have lens: "length (h_arr f) = n_points f" "length (flags f) = n_points f"
      "length xi = n_points f"
    using g by (simp_all add: gridded_def aligned_def)
  have run: "refine_cell cfg fit xi yi iy ix f = Inr ?f'"
    using ix enough fit by (simp add: refine_cell_def Let_def)
  have loc: "i \<in> set ?loc \<longleftrightarrow> xi ! i = ix \<and> yi ! i = iy" if "i < n_points f" for i
    using that lens by (simp add: local_idx_def set_where_idx)
  have bit: "(w OR IS_GROUND) AND IS_GROUND \<noteq> 0" for w :: "8 word"
    by (rule ground_bit_set)
  have pt: "(if xi ! i = ix \<and> yi ! i = iy
           then h_arr ?f' ! i
                  = z - (x * clip a (- max_slope cfg) (max_slope cfg)
                         + y * clip b (- max_slope cfg) (max_slope cfg)) - c
                \<and> (if - dz_global cfg < h_arr ?f' ! i \<and> h_arr ?f' ! i < dz_local cfg
                    then flags ?f' ! i = flags f ! i OR IS_GROUND
                         \<and> flags ?f' ! i AND IS_GROUND \<noteq> 0
                    else flags ?f' ! i = 0)
           else h_arr ?f' ! i = h_arr f ! i \<and> flags ?f' ! i = flags f ! i)"
    if i: "i < n_points f" and p: "pos f ! i = (x, y, z)" for i x y z
  proof (cases "xi ! i = ix \<and> yi ! i = iy")
    case True
    then have mem: "i \<in> set ?loc" using loc [OF i] by simp
    have h: "?h ! i = z - (x * clip a (- max_slope cfg) (max_slope cfg)
                         + y * clip b (- max_slope cfg) (max_slope cfg)) - c"
      using i lens mem p by (simp add: nth_scatter local_height_def)
    have fl2: "?fl2 ! i = (if on_local_plane cfg (?h ! i) then flags f ! i OR IS_GROUND else 0)"
      using i lens mem by (simp add: nth_scatter length_scatter)
    show ?thesis
      using True h fl2 bit [of "flags f ! i"] by (simp add: on_local_plane_def)
  next
    case False
    then have mem: "i \<notin> set ?loc" using loc [OF i] by simp
    have "h_arr ?f' ! i = h_arr f ! i" "flags ?f' ! i = flags f ! i"
      using i lens mem by (simp_all add: nth_scatter length_scatter)
    then show ?thesis unfolding if_not_P [OF False] by blast
  qed
  have "length (h_arr ?f') = n_points f" "length (flags ?f') = n_points f"
    using lens by (simp_all add: length_scatter)
  then show ?thesis using run pt by blast
qed

theorem refine_cell_relabels_witness:
  "gridded kerb_frame [2, 1, 2, 2, 2, 2] [1, 10, 1, 1, 8, 1]
   \<and> int16 2
   \<and> min_grd_pts (road_cfg 2 3)
        \<le> int (length (to_fit_idx [2, 1, 2, 2, 2, 2] [1, 10, 1, 1, 8, 1] 1 2 kerb_frame))
   \<and> plane_fit_ls (map (\<lambda>i. pos kerb_frame ! i)
        (to_fit_idx [2, 1, 2, 2, 2, 2] [1, 10, 1, 1, 8, 1] 1 2 kerb_frame)) = Some (0, 0, - 2)
   \<and> (\<exists>f'. refine_cell (road_cfg 2 3) plane_fit_ls [2, 1, 2, 2, 2, 2] [1, 10, 1, 1, 8, 1]
               1 2 kerb_frame = Inr f'
         \<and> h_arr f' ! 5 = 5 \<and> flags kerb_frame ! 5 = IS_NOISE \<and> flags f' ! 5 = 0
         \<and> h_arr f' ! 2 = 0 \<and> flags f' ! 2 AND IS_GROUND \<noteq> 0)"
proof -
  let ?xi = "[2, 1, 2, 2, 2, 2] :: int list"
  let ?yi = "[1, 10, 1, 1, 8, 1] :: int list"
  have g: "gridded kerb_frame ?xi ?yi"
    by (simp add: gridded_def aligned_def kerb_frame_def int16_def)
  have ix: "int16 2" by (simp add: int16_def)
  have tf: "to_fit_idx ?xi ?yi 1 2 kerb_frame = [0, 2, 3]"
    by code_simp
  have enough: "min_grd_pts (road_cfg 2 3) \<le> int (length (to_fit_idx ?xi ?yi 1 2 kerb_frame))"
    unfolding tf by (simp add: road_cfg_def)
  have fit: "plane_fit_ls (map (\<lambda>i. pos kerb_frame ! i) (to_fit_idx ?xi ?yi 1 2 kerb_frame))
               = Some (0, 0, - 2)"
    by code_simp
  have p5: "pos kerb_frame ! 5 = (0, 1, 3)" and p2: "pos kerb_frame ! 2 = (0, 1, - 2)"
    by (simp_all add: kerb_frame_def)
  have n: "n_points kerb_frame = 6" by (simp add: kerb_frame_def)
  have old5: "flags kerb_frame ! 5 = IS_NOISE" by (simp add: kerb_frame_def IS_NOISE_def)
  from refine_cell_relabels [where f = kerb_frame and fit = plane_fit_ls
      and cfg = "road_cfg 2 3", OF g ix enough fit]
  obtain f' where
    run: "refine_cell (road_cfg 2 3) plane_fit_ls ?xi ?yi 1 2 kerb_frame = Inr f'" and
    pt: "\<And>i x y z. i < n_points kerb_frame \<Longrightarrow> pos kerb_frame ! i = (x, y, z) \<Longrightarrow>
          (if ?xi ! i = 2 \<and> ?yi ! i = 1
           then h_arr f' ! i
                  = z - (x * clip 0 (- max_slope (road_cfg 2 3)) (max_slope (road_cfg 2 3))
                         + y * clip 0 (- max_slope (road_cfg 2 3)) (max_slope (road_cfg 2 3)))
                      - (- 2)
                \<and> (if - dz_global (road_cfg 2 3) < h_arr f' ! i
                        \<and> h_arr f' ! i < dz_local (road_cfg 2 3)
                    then flags f' ! i = flags kerb_frame ! i OR IS_GROUND
                         \<and> flags f' ! i AND IS_GROUND \<noteq> 0
                    else flags f' ! i = 0)
           else h_arr f' ! i = h_arr kerb_frame ! i \<and> flags f' ! i = flags kerb_frame ! i)"
    by blast
  have h5: "h_arr f' ! 5 = 5" and h2: "h_arr f' ! 2 = 0"
    using pt [of 5, OF _ p5] pt [of 2, OF _ p2] by (simp_all add: n clip_def road_cfg_def)
  have "flags f' ! 5 = 0"
    using pt [of 5, OF _ p5] h5 by (simp add: n road_cfg_def)
  moreover have "flags f' ! 2 AND IS_GROUND \<noteq> 0"
    using pt [of 2, OF _ p2] h2 by (simp add: n road_cfg_def IS_GROUND_def)
  ultimately show ?thesis using g ix enough fit run h5 h2 old5 by blast
qed

subsection \<open>Grid Indexer\<close>



lemma astype_int16_fits: "int16 (trunc q) \<Longrightarrow> astype_int16 (Some q) = trunc q"
  by (simp add: astype_int16_def Let_def wrap16_id) (simp add: int16_def)

lemma int16_astype_int16: "int16 (astype_int16 v)"
  by (cases v) (simp_all add: astype_int16_def Let_def int16_wrap16, simp_all add: int16_def)

lemma ratio_le_1: "\<bar>x / sqrt (x\<^sup>2 + y\<^sup>2)\<bar> \<le> 1" for x y :: real
proof (cases "sqrt (x\<^sup>2 + y\<^sup>2) = 0")
  case True
  then show ?thesis by simp
next
  case False
  have nn: "0 \<le> sqrt (x\<^sup>2 + y\<^sup>2)" by simp
  with False have pos: "0 < sqrt (x\<^sup>2 + y\<^sup>2)" by linarith
  have "\<bar>x\<bar> \<le> sqrt (x\<^sup>2 + y\<^sup>2)" by (rule real_sqrt_ge_abs1)
  then have "\<bar>x\<bar> / sqrt (x\<^sup>2 + y\<^sup>2) \<le> 1"
    using pos by (simp add: divide_le_eq)
  then show ?thesis using nn by (simp add: abs_divide del: real_sqrt_ge_0_iff)
qed


lemma theta_of_Some:
  "theta_of (x, y, z) d = Some t \<longleftrightarrow> d \<noteq> 0 \<and> \<bar>x / d\<bar> \<le> 1 \<and> t = arcsin (x / d)"
  by (auto simp: theta_of_def fdiv_def farcsin_def)

lemma theta_of_axis: "theta_of (x, y, z) 0 = None"
  by (simp add: theta_of_def fdiv_def)



lemma angular_bin_None: "angular_bin cfg None = 0"
  by (simp add: angular_bin_def angular_quotient_def astype_int16_def)

lemma range_bin_Some:
  "dist_grid_size cfg \<noteq> 0
     \<Longrightarrow> range_bin cfg d = astype_int16 (Some ((d - min_dist cfg) / dist_grid_size cfg))"
  by (simp add: range_bin_def range_quotient_def fdiv_def)

lemma map2_map_same: "map2 f (map g xs) (map k xs) = map (\<lambda>x. f (g x) (k x)) xs"
  by (induction xs) simp_all

lemma gridding_Inr:
  "gridding cfg f
     = Inr (f\<lparr> theta := Some (map2 theta_of (pos f) (distXY f)),
                x_idx := Some (map (angular_bin cfg) (map2 theta_of (pos f) (distXY f))),
                y_idx := Some (map (range_bin cfg) (distXY f)) \<rparr>)"
  by (simp add: gridding_def Let_def)

lemma gridding_gridded:
  assumes "aligned f" and "gridding cfg f = Inr f'"
  shows "\<exists>xi yi. gridded f' xi yi"
proof -
  have n: "length (pos f) = n_points f" "length (distXY f) = n_points f"
    using assms(1) by (simp_all add: aligned_def)
  have f': "f' = f\<lparr> theta := Some (map2 theta_of (pos f) (distXY f)),
                x_idx := Some (map (angular_bin cfg) (map2 theta_of (pos f) (distXY f))),
                y_idx := Some (map (range_bin cfg) (distXY f)) \<rparr>"
    using assms(2) unfolding gridding_Inr by simp
  show ?thesis
    unfolding f' gridded_def using assms(1) n
    by (simp add: aligned_def list_all_iff angular_bin_def range_bin_def int16_astype_int16)
qed




lemma trunc_numeral [simp]: "trunc (numeral k) = numeral k"
  by (simp add: trunc_def)

lemma trunc_0 [simp]: "trunc 0 = 0" and trunc_1 [simp]: "trunc 1 = 1"
  by (simp_all add: trunc_def)

lemma astype_int16_small:
  "trunc q = k \<Longrightarrow> int16 k \<Longrightarrow> astype_int16 (Some q) = k"
  using astype_int16_fits [of q] by simp






text \<open>
  C7 (amended). \<open>gridding\<close> has no guard: it neither clamps nor excludes a point.
  For a point off the sensor's vertical axis the horizontal range is not zero
  and \<open>x / range_xy\<close> lies in \<open>[-1, 1]\<close>, so the inverse sine is defined without
  clamping. A valid point on the axis has range zero; \<open>gridding\<close> returns all
  the same, keeps the point and its position, gives it the angle \<open>nan\<close> and the
  angular bin 0, the cast of \<open>nan\<close>, which is also the bin of a defined angle.
\<close>

theorem gridding_unguarded:
  "(x \<noteq> 0 \<or> y \<noteq> 0 \<longrightarrow>
      sqrt (x\<^sup>2 + y\<^sup>2) \<noteq> 0 \<and> \<bar>x / sqrt (x\<^sup>2 + y\<^sup>2)\<bar> \<le> 1
      \<and> theta_of (x, y, z) (sqrt (x\<^sup>2 + y\<^sup>2)) = Some (arcsin (x / sqrt (x\<^sup>2 + y\<^sup>2))))
   \<and> theta_of (0, 0, z) (sqrt (0\<^sup>2 + 0\<^sup>2)) = None
   \<and> angular_quotient cfg None = None
   \<and> angular_bin cfg None = 0
   \<and> (\<exists>f' ths xi yi.
         gridding cfg (Frame_init pts cfg) = Inr f'
       \<and> pos f' = map (\<lambda>p. (px p, py p, pz p)) (filter (\<lambda>p. \<not> invalid p) pts)
       \<and> theta f' = Some ths \<and> x_idx f' = Some xi \<and> y_idx f' = Some yi
       \<and> length ths = length (pos f') \<and> length xi = length (pos f')
       \<and> length yi = length (pos f')
       \<and> (\<forall>i < length (pos f'). \<forall>z'. pos f' ! i = (0, 0, z') \<longrightarrow>
             ths ! i = None \<and> xi ! i = 0))"
proof -
  have a: "sqrt (x\<^sup>2 + y\<^sup>2) \<noteq> 0 \<and> \<bar>x / sqrt (x\<^sup>2 + y\<^sup>2)\<bar> \<le> 1
      \<and> theta_of (x, y, z) (sqrt (x\<^sup>2 + y\<^sup>2)) = Some (arcsin (x / sqrt (x\<^sup>2 + y\<^sup>2)))"
    if "x \<noteq> 0 \<or> y \<noteq> 0"
  proof -
    have nz: "sqrt (x\<^sup>2 + y\<^sup>2) \<noteq> 0"
      using that by (auto simp: real_sqrt_eq_zero_cancel_iff sum_power2_eq_zero_iff)
    show ?thesis using nz ratio_le_1 [of x y] by (simp add: theta_of_Some)
  qed
  have b: "theta_of (0, 0, z) (sqrt (0\<^sup>2 + 0\<^sup>2)) = None"
    by (simp add: theta_of_axis)
  have c: "angular_quotient cfg None = None" by (simp add: angular_quotient_def)
  have c': "angular_bin cfg None = 0" by (rule angular_bin_None)
  let ?f = "Frame_init pts cfg"
  let ?ps = "map (\<lambda>p. (px p, py p, pz p)) (filter (\<lambda>p. \<not> invalid p) pts)"
  let ?ths = "map2 theta_of (pos ?f) (distXY ?f)"
  let ?xi = "map (angular_bin cfg) ?ths"
  let ?yi = "map (range_bin cfg) (distXY ?f)"
  let ?f' = "?f\<lparr> theta := Some ?ths, x_idx := Some ?xi, y_idx := Some ?yi \<rparr>"
  have ps: "pos ?f = ?ps" by (simp add: Frame_init_def Let_def)
  have ds: "distXY ?f = map (\<lambda>(x, y, z). sqrt (x\<^sup>2 + y\<^sup>2)) ?ps"
    by (simp add: Frame_init_def Let_def)
  have ln: "length ?ths = length ?ps" unfolding ps ds by simp
  have pt: "?ths ! i = None \<and> ?xi ! i = 0"
    if i: "i < length (pos ?f')" and p: "pos ?f' ! i = (0, 0, z')" for i z'
  proof -
    have i': "i < length ?ps" using i ps by simp
    have p': "?ps ! i = (0, 0, z')" using p ps by simp
    have di: "distXY ?f ! i = 0"
      unfolding ds using i' p' by (simp del: map_map)
    have "?ths ! i = theta_of (?ps ! i) (distXY ?f ! i)"
      using i' unfolding ps ds by simp
    then have t: "?ths ! i = None" unfolding p' di by (simp add: theta_of_axis)
    have "?xi ! i = angular_bin cfg (?ths ! i)"
      using i' ln by simp
    then show ?thesis using t by (simp add: angular_bin_None)
  qed
  have d: "\<exists>f' ths xi yi.
         gridding cfg ?f = Inr f'
       \<and> pos f' = ?ps
       \<and> theta f' = Some ths \<and> x_idx f' = Some xi \<and> y_idx f' = Some yi
       \<and> length ths = length (pos f') \<and> length xi = length (pos f')
       \<and> length yi = length (pos f')
       \<and> (\<forall>i < length (pos f'). \<forall>z'. pos f' ! i = (0, 0, z') \<longrightarrow>
             ths ! i = None \<and> xi ! i = 0)"
  proof (intro exI conjI)
    show "gridding cfg ?f = Inr ?f'" by (rule gridding_Inr)
    show "pos ?f' = ?ps" using ps by simp
    show "theta ?f' = Some ?ths" "x_idx ?f' = Some ?xi" "y_idx ?f' = Some ?yi" by simp_all
    show "length ?ths = length (pos ?f')" "length ?xi = length (pos ?f')"
      using ln ps by simp_all
    show "length ?yi = length (pos ?f')" unfolding ds using ps by simp
    show "\<forall>i < length (pos ?f'). \<forall>z'. pos ?f' ! i = (0, 0, z') \<longrightarrow>
             ?ths ! i = None \<and> ?xi ! i = 0"
      using pt by blast
  qed
  show ?thesis using a b c c' d by blast
qed

theorem gridding_unguarded_witness:
  "theta_of (1, 0, - 2) (sqrt (1\<^sup>2 + 0\<^sup>2)) = Some (pi / 2)
   \<and> (\<exists>f' ths xi.
         gridding (road_cfg 2 3) (Frame_init origin_pts (road_cfg 2 3)) = Inr f'
       \<and> pos f' = [(0, 0, - 2)] \<and> theta f' = Some ths \<and> x_idx f' = Some xi
       \<and> length ths = 1 \<and> length xi = 1 \<and> ths ! 0 = None \<and> xi ! 0 = 0)"
proof -
  let ?c = "road_cfg 2 3"
  note u = gridding_unguarded [of 1 0 "- 2" ?c origin_pts]
  have ps: "map (\<lambda>p. (px p, py p, pz p)) (filter (\<lambda>p. \<not> invalid p) origin_pts)
      = [(0, 0, - 2)]"
    by (simp add: origin_pts_def)
  have "theta_of (1, 0, - 2) (sqrt (1\<^sup>2 + 0\<^sup>2)) = Some (pi / 2)"
    using u by simp
  moreover from u obtain f' ths xi where
    g: "gridding ?c (Frame_init origin_pts ?c) = Inr f'"
    and p: "pos f' = map (\<lambda>p. (px p, py p, pz p)) (filter (\<lambda>p. \<not> invalid p) origin_pts)"
    and t: "theta f' = Some ths" "x_idx f' = Some xi"
    and l: "length ths = length (pos f')" "length xi = length (pos f')"
    and a: "\<And>i z'. i < length (pos f') \<Longrightarrow> pos f' ! i = (0, 0, z')
               \<Longrightarrow> ths ! i = None \<and> xi ! i = 0"
    by blast
  have p': "pos f' = [(0, 0, - 2)]" using p ps by simp
  have "ths ! 0 = None \<and> xi ! 0 = 0"
    by (rule a [of 0 "- 2"]) (simp_all add: p')
  then have "\<exists>f' ths xi.
         gridding ?c (Frame_init origin_pts ?c) = Inr f'
       \<and> pos f' = [(0, 0, - 2)] \<and> theta f' = Some ths \<and> x_idx f' = Some xi
       \<and> length ths = 1 \<and> length xi = 1 \<and> ths ! 0 = None \<and> xi ! 0 = 0"
    using g p' t l by (intro exI [of _ f'] exI [of _ ths] exI [of _ xi]) simp
  ultimately show ?thesis by blast
qed

theorem gridding_guard_counterexample:
  "pos (Frame_init origin_pts (road_cfg 2 3)) = [(0, 0, - 2)]
   \<and> distXY (Frame_init origin_pts (road_cfg 2 3)) = [0]
   \<and> angular_quotient (road_cfg 2 3) (theta_of (0, 0, - 2) 0) = None
   \<and> gridding (road_cfg 2 3) (Frame_init origin_pts (road_cfg 2 3))
       = Inr ((Frame_init origin_pts (road_cfg 2 3))
                \<lparr> theta := Some [None], x_idx := Some [0], y_idx := Some [0] \<rparr>)"
proof -
  let ?c = "road_cfg 2 3"
  have init: "Frame_init origin_pts ?c
     = \<lparr> n_points = 1, pos = [(0, 0, - 2)], intensities = [0], h_arr = [0], distXY = [0],
         flags = [0], cid_arr = [0], grd_par = (0, 0, - 2), theta = None, x_idx = None,
         y_idx = None \<rparr>"
    by (simp add: Frame_init_def origin_pts_def road_cfg_def Let_def)
  have cfg: "min_dist ?c = 0" "dist_grid_size ?c = 1" by (simp_all add: road_cfg_def)
  have i0: "int16 0" by (simp add: int16_def)
  have yb: "range_bin ?c 0 = 0"
    using i0 by (simp add: range_bin_Some cfg astype_int16_small)
  have q: "angular_quotient ?c (theta_of (0, 0, - 2) 0) = None"
    by (simp add: theta_of_axis angular_quotient_def)
  have "gridding ?c (Frame_init origin_pts ?c)
       = Inr ((Frame_init origin_pts ?c)
                \<lparr> theta := Some [None], x_idx := Some [0], y_idx := Some [0] \<rparr>)"
    unfolding init gridding_Inr by (simp add: theta_of_axis angular_bin_None yb)
  then show ?thesis using q unfolding init by simp
qed

subsection \<open>Ground count and \<open>dz_global\<close>\<close>

lemma for_each_skip: "(\<And>x. x \<in> set xs \<Longrightarrow> body x s = Inr s) \<Longrightarrow> for_each xs body s = Inr s"
  by (induction xs) simp_all

lemma global_fit_Inr:
  assumes "global_fit cfg fit f = Inr f'"
  shows "\<exists>pl. fit (map (\<lambda>i. pos f ! i) (grd_candidates cfg f)) = Some pl
     \<and> f' = f\<lparr> flags := scatter (filter (\<lambda>i. map (height_above pl) (pos f) ! i < dz_local cfg)
                                    (grd_candidates cfg f))
                           (\<lambda>i. replicate (n_points f) 0 ! i OR IS_GROUND)
                           (replicate (n_points f) 0),
                 h_arr := map (height_above pl) (pos f) \<rparr>"
  using assms by (auto simp: global_fit_def Let_def split: option.splits)

lemma global_fit_flags:
  assumes al: "aligned f" and run: "global_fit cfg fit f = Inr f'"
    and fit: "fit (map (\<lambda>i. pos f ! i) (grd_candidates cfg f)) = Some pl"
    and i: "i < n_points f"
  shows "flags f' ! i = (if is_candidate cfg f i \<and> height_above pl (pos f ! i) < dz_local cfg
                          then IS_GROUND else 0)"
proof -
  have n: "length (pos f) = n_points f" using al by (simp add: aligned_def)
  from global_fit_Inr [OF run] fit
  have "flags f' = scatter (filter (\<lambda>i. map (height_above pl) (pos f) ! i < dz_local cfg)
                                    (grd_candidates cfg f))
                           (\<lambda>i. replicate (n_points f) 0 ! i OR IS_GROUND)
                           (replicate (n_points f) 0)"
    by auto
  then show ?thesis
    using i n by (simp add: nth_scatter grd_candidates_def set_where_idx)
qed

lemma clip_mono_hi: "hi \<le> hi' \<Longrightarrow> clip v lo hi \<le> clip v lo hi'"
  by (auto simp: clip_def min_def max_def)

lemma count_mono:
  assumes "length xs = length ys" and "\<And>i. i < length xs \<Longrightarrow> P (xs ! i) \<Longrightarrow> Q (ys ! i)"
  shows "length (filter P xs) \<le> length (filter Q ys)"
proof -
  have "{i. i < length xs \<and> P (xs ! i)} \<subseteq> {i. i < length ys \<and> Q (ys ! i)}"
    using assms by auto
  then have "card {i. i < length xs \<and> P (xs ! i)} \<le> card {i. i < length ys \<and> Q (ys ! i)}"
    by (intro card_mono) simp_all
  then show ?thesis by (simp add: length_filter_conv_card)
qed

text \<open>
  C9 (amended). Raising \<open>dz_global\<close> with the rest of the configuration fixed
  never removes a ground candidate. If the fitter returns the same plane for the
  two candidate sets, the heights of the global fit agree, every point that
  carries the ground bit after the global fit under \<open>dz_global\<close> carries it
  under the larger value, and the number of ground-flagged points after the
  global fit does not decrease.
\<close>

theorem ground_seed_monotone:
  assumes al: "aligned f" and le: "dz_global cfg \<le> d'"
    and r1: "global_fit cfg fit f = Inr f1"
    and r2: "global_fit (cfg\<lparr> dz_global := d' \<rparr>) fit f = Inr f2"
    and same: "fit (map (\<lambda>i. pos f ! i) (grd_candidates (cfg\<lparr> dz_global := d' \<rparr>) f))
                 = fit (map (\<lambda>i. pos f ! i) (grd_candidates cfg f))"
  shows "set (grd_candidates cfg f) \<subseteq> set (grd_candidates (cfg\<lparr> dz_global := d' \<rparr>) f)
     \<and> h_arr f2 = h_arr f1
     \<and> (\<forall>i < n_points f. flags f1 ! i AND IS_GROUND > 0 \<longrightarrow> flags f2 ! i AND IS_GROUND > 0)
     \<and> ground_count f1 \<le> ground_count f2"
proof -
  let ?c' = "cfg\<lparr> dz_global := d' \<rparr>"
  have cand: "is_candidate ?c' f i" if "is_candidate cfg f i" for i
    using that clip_mono_hi [OF le, of "distXY f ! i * max_slope cfg" "dz_local cfg"]
    by (simp add: is_candidate_def)
  have sub: "set (grd_candidates cfg f) \<subseteq> set (grd_candidates ?c' f)"
    using cand by (auto simp: grd_candidates_def set_where_idx)
  from global_fit_Inr [OF r1] obtain pl where
    fit1: "fit (map (\<lambda>i. pos f ! i) (grd_candidates cfg f)) = Some pl" and
    h1: "h_arr f1 = map (height_above pl) (pos f)"
    by auto
  from global_fit_Inr [OF r2] same fit1 have
    fit2: "fit (map (\<lambda>i. pos f ! i) (grd_candidates ?c' f)) = Some pl" and
    h2: "h_arr f2 = map (height_above pl) (pos f)"
    by auto
  have fl1: "flags f1 ! i = (if is_candidate cfg f i \<and> height_above pl (pos f ! i) < dz_local cfg
                          then IS_GROUND else 0)" if "i < n_points f" for i
    using global_fit_flags [OF al r1 fit1 that] .
  have fl2: "flags f2 ! i = (if is_candidate ?c' f i \<and> height_above pl (pos f ! i) < dz_local cfg
                          then IS_GROUND else 0)" if "i < n_points f" for i
    using global_fit_flags [OF al r2 fit2 that] by simp
  have pt: "flags f2 ! i AND IS_GROUND > 0"
    if "i < n_points f" "flags f1 ! i AND IS_GROUND > 0" for i
    using that fl1 [of i] fl2 [of i] cand [of i] by (auto split: if_splits)
  have len: "length (flags f1) = n_points f" "length (flags f2) = n_points f"
    using global_fit_Inr [OF r1] global_fit_Inr [OF r2] by (auto simp: length_scatter)
  have cnt: "ground_count f1 \<le> ground_count f2"
    unfolding ground_count_def using len pt by (intro count_mono) simp_all
  show ?thesis using sub h1 h2 pt cnt by simp
qed

lemma verge_fit_2:
  "global_fit (road_cfg 2 10) plane_fit_ls verge_frame
     = Inr (verge_frame\<lparr> flags := [2, 2, 2, 2, 0, 0, 0, 0],
              h_arr := [0, 0, 0, 0, 5 / 2, 5 / 2, - 5 / 2, - 5 / 2] \<rparr>)"
  by code_simp

lemma verge_fit_3:
  "global_fit ((road_cfg 2 10)\<lparr> dz_global := 3 \<rparr>) plane_fit_ls verge_frame
     = Inr (verge_frame\<lparr> flags := [2, 2, 2, 2, 0, 0, 2, 2],
              h_arr := [0, 0, 0, 0, 5 / 2, 5 / 2, - 5 / 2, - 5 / 2] \<rparr>)"
  by code_simp

lemma verge_cands:
  "grd_candidates (road_cfg 2 10) verge_frame = [0, 1, 2, 3]"
  "grd_candidates ((road_cfg 2 10)\<lparr> dz_global := 3 \<rparr>) verge_frame = [0, 1, 2, 3, 4, 5, 6, 7]"
  by code_simp+

lemma verge_same:
  "plane_fit_ls (map (\<lambda>i. pos verge_frame ! i)
       (grd_candidates ((road_cfg 2 10)\<lparr> dz_global := 3 \<rparr>) verge_frame))
     = plane_fit_ls (map (\<lambda>i. pos verge_frame ! i) (grd_candidates (road_cfg 2 10) verge_frame))"
  by code_simp

theorem ground_seed_monotone_witness:
  "aligned verge_frame \<and> dz_global (road_cfg 2 10) \<le> 3
   \<and> grd_candidates (road_cfg 2 10) verge_frame = [0, 1, 2, 3]
   \<and> grd_candidates ((road_cfg 2 10)\<lparr> dz_global := 3 \<rparr>) verge_frame = [0, 1, 2, 3, 4, 5, 6, 7]
   \<and> plane_fit_ls (map (\<lambda>i. pos verge_frame ! i)
         (grd_candidates ((road_cfg 2 10)\<lparr> dz_global := 3 \<rparr>) verge_frame))
       = plane_fit_ls (map (\<lambda>i. pos verge_frame ! i) (grd_candidates (road_cfg 2 10) verge_frame))
   \<and> (\<exists>f1 f2. global_fit (road_cfg 2 10) plane_fit_ls verge_frame = Inr f1
         \<and> global_fit ((road_cfg 2 10)\<lparr> dz_global := 3 \<rparr>) plane_fit_ls verge_frame = Inr f2
         \<and> flags f1 = [2, 2, 2, 2, 0, 0, 0, 0] \<and> flags f2 = [2, 2, 2, 2, 0, 0, 2, 2]
         \<and> ground_count f1 \<le> ground_count f2)"
proof -
  have al: "aligned verge_frame" by (simp add: aligned_def verge_frame_def)
  have le: "dz_global (road_cfg 2 10) \<le> 3" by (simp add: road_cfg_def)
  from ground_seed_monotone [OF al le verge_fit_2 verge_fit_3 verge_same]
  show ?thesis using al le verge_cands verge_same verge_fit_2 verge_fit_3 by simp
qed

lemma road_flags_2:
  "map_sum id flags (ground_detection (road_cfg 2 10) plane_fit_ls road_frame) = Inr [2, 2, 2, 2, 0]"
  by code_simp

lemma road_flags_10:
  "map_sum id flags (ground_detection (road_cfg 10 10) plane_fit_ls road_frame) = Inr [2, 0, 2, 2, 0]"
  by code_simp

theorem ground_count_counterexample:
  "road_cfg 10 10 = (road_cfg 2 10)\<lparr> dz_global := 10 \<rparr>
   \<and> dz_global (road_cfg 2 10) < dz_global (road_cfg 10 10)
   \<and> (\<exists>f1 f2. ground_detection (road_cfg 2 10) plane_fit_ls road_frame = Inr f1
         \<and> ground_detection (road_cfg 10 10) plane_fit_ls road_frame = Inr f2
         \<and> ground_count f1 = 4 \<and> ground_count f2 = 3)"
proof -
  obtain f1 where f1: "ground_detection (road_cfg 2 10) plane_fit_ls road_frame = Inr f1"
      "flags f1 = [2, 2, 2, 2, 0]"
    using road_flags_2 by (cases "ground_detection (road_cfg 2 10) plane_fit_ls road_frame") auto
  obtain f2 where f2: "ground_detection (road_cfg 10 10) plane_fit_ls road_frame = Inr f2"
      "flags f2 = [2, 0, 2, 2, 0]"
    using road_flags_10 by (cases "ground_detection (road_cfg 10 10) plane_fit_ls road_frame") auto
  have "ground_count f1 = 4" "ground_count f2 = 3"
    by (simp_all add: ground_count_def f1 f2 IS_GROUND_def)
  then show ?thesis using f1 f2 by (auto simp: road_cfg_def)
qed

subsection \<open>Empty frames\<close>

lemma Frame_init_void:
  assumes "list_all invalid pts"
  shows "Frame_init pts cfg
     = \<lparr> n_points = 0, pos = [], intensities = [], h_arr = [], distXY = [], flags = [],
         cid_arr = [], grd_par = (0, 0, - lidar_height cfg), theta = None, x_idx = None,
         y_idx = None \<rparr>"
proof -
  have "filter (\<lambda>p. \<not> invalid p) pts = []"
    using assms by (simp add: list_all_iff filter_empty_conv)
  then show ?thesis by (simp add: Frame_init_def Let_def)
qed

lemma gridding_void:
  assumes "pos f = []" "distXY f = []"
  shows "gridding cfg f = Inr (f\<lparr> theta := Some [], x_idx := Some [], y_idx := Some [] \<rparr>)"
  using assms by (simp add: gridding_def Let_def)

lemma ground_detection_void:
  assumes e: "pos f = []" "n_points f = 0" "h_arr f = []" "flags f = []" "y_idx f = Some []"
    and fit: "fit [] = Some pl" and mg: "0 < min_grd_pts cfg"
  shows "ground_detection cfg fit f = Inr f"
proof -
  have gf: "global_fit cfg fit f = Inr f"
    using e fit by (simp add: global_fit_def grd_candidates_def where_idx_def scatter_def Let_def)
  have row: "refine_row cfg fit (x_idx f) [] iy f = Inr f" for iy
    using mg by (simp add: refine_row_def)
  have "local_refinement cfg fit f = Inr f"
    using e by (simp add: local_refinement_def for_each_skip row)
  then show ?thesis using gf by (simp add: ground_detection_def)
qed

lemma clustering_void: "x_idx f = Some [] \<Longrightarrow> clustering cfg f = Inl ValueError"
  by (simp add: clustering_def array_min_def)

lemma grow_cluster_void:
  "x_idx f = Some xi \<Longrightarrow> y_idx f = Some yi \<Longrightarrow> cid_arr f = []
     \<Longrightarrow> grow_cluster cfg f = Inl ValueError"
  by (simp add: grow_cluster_def array_max_def)

text \<open>
  C8 (amended). On a frame with no valid point \<open>gridding\<close> returns empty angles
  and bins, and \<open>ground_detection\<close> returns with empty flags and heights when
  the fitter returns for the empty point set and \<open>min_grd_pts\<close> is positive.
  \<open>clustering\<close> and \<open>grow_cluster\<close> do not return: the minimum and the maximum of
  an empty array raise \<open>ValueError\<close>.
\<close>

theorem empty_frame_stages:
  assumes inv: "list_all invalid pts" and fit: "fit [] = Some pl" and mg: "0 < min_grd_pts cfg"
  shows "\<exists>g. n_points (Frame_init pts cfg) = 0
     \<and> gridding cfg (Frame_init pts cfg) = Inr g
     \<and> theta g = Some [] \<and> x_idx g = Some [] \<and> y_idx g = Some []
     \<and> ground_detection cfg fit g = Inr g
     \<and> flags g = [] \<and> h_arr g = [] \<and> cid_arr g = []
     \<and> clustering cfg g = Inl ValueError
     \<and> grow_cluster cfg g = Inl ValueError"
proof -
  let ?f = "Frame_init pts cfg"
  let ?g = "?f\<lparr> theta := Some [], x_idx := Some [], y_idx := Some [] \<rparr>"
  note init = Frame_init_void [OF inv, of cfg]
  have g: "gridding cfg ?f = Inr ?g"
    by (rule gridding_void) (simp_all add: init)
  have gd: "ground_detection cfg fit ?g = Inr ?g"
    using fit mg
    by (intro ground_detection_void [where fit = fit and pl = pl and cfg = cfg])
       (simp_all add: init)
  have cl: "clustering cfg ?g = Inl ValueError"
    by (rule clustering_void) simp
  have gr: "grow_cluster cfg ?g = Inl ValueError"
    by (rule grow_cluster_void [of _ "[]" "[]"]) (simp_all add: init)
  show ?thesis
    using g gd cl gr by (intro exI [of _ ?g]) (simp add: init)
qed

theorem empty_frame_stages_witness:
  "list_all invalid void_pts \<and> flat_fit [] = Some (0, 0, - 2) \<and> 0 < min_grd_pts (road_cfg 2 3)
   \<and> (\<exists>g. gridding (road_cfg 2 3) (Frame_init void_pts (road_cfg 2 3)) = Inr g
         \<and> ground_detection (road_cfg 2 3) flat_fit g = Inr g
         \<and> flags g = [] \<and> h_arr g = [] \<and> cid_arr g = []
         \<and> clustering (road_cfg 2 3) g = Inl ValueError
         \<and> grow_cluster (road_cfg 2 3) g = Inl ValueError)"
proof -
  have inv: "list_all invalid void_pts" by (simp add: void_pts_def)
  have fit: "flat_fit [] = Some (0, 0, - 2)" by (simp add: flat_fit_def)
  have mg: "0 < min_grd_pts (road_cfg 2 3)" by (simp add: road_cfg_def)
  from empty_frame_stages [where fit = flat_fit and pts = void_pts and cfg = "road_cfg 2 3",
      OF inv fit mg]
  show ?thesis using inv fit mg by blast
qed

theorem empty_frame_counterexample:
  "list_all invalid void_pts
   \<and> (\<exists>g. gridding (road_cfg 2 3) (Frame_init void_pts (road_cfg 2 3)) = Inr g
         \<and> ground_detection (road_cfg 2 3) flat_fit g = Inr g
         \<and> clustering (road_cfg 2 3) g = Inl ValueError
         \<and> grow_cluster (road_cfg 2 3) g = Inl ValueError)"
proof -
  let ?c = "road_cfg 2 3"
  let ?g = "(Frame_init void_pts ?c)\<lparr> theta := Some [], x_idx := Some [], y_idx := Some [] \<rparr>"
  have inv: "list_all invalid void_pts" by (simp add: void_pts_def)
  note init = Frame_init_void [OF inv, of ?c]
  have "gridding ?c (Frame_init void_pts ?c) = Inr ?g"
    by (rule gridding_void) (simp_all add: init)
  moreover have "ground_detection ?c flat_fit ?g = Inr ?g"
  proof (rule ground_detection_void [where fit = flat_fit and pl = "(0, 0, - 2)" and cfg = ?c])
    show "flat_fit [] = Some (0, 0, - 2)" by (simp add: flat_fit_def)
    show "0 < min_grd_pts ?c" by (simp add: road_cfg_def)
  qed (simp_all add: init)
  moreover have "clustering ?c ?g = Inl ValueError"
    by (rule clustering_void) simp
  moreover have "grow_cluster ?c ?g = Inl ValueError"
    by (rule grow_cluster_void [of _ "[]" "[]"]) (simp_all add: init)
  ultimately show ?thesis using inv by blast
qed

subsection \<open>Cluster Builder\<close>

lemma array_min_Min: "xs \<noteq> [] \<Longrightarrow> array_min xs = Inr (Min (set xs))"
  by (cases xs) (simp_all add: array_min_def Min.set_eq_fold [symmetric])

lemma array_max_Max: "xs \<noteq> [] \<Longrightarrow> array_max xs = Inr (Max (set xs))"
  by (cases xs) (simp_all add: array_max_def Max.set_eq_fold [symmetric])

lemma set_block_idx: "set (block_idx cfg f xi yi ix iy) = block_members cfg f xi yi ix iy"
  by (auto simp: block_idx_def set_where_idx block_members_def in_x_def in_y_def h_cut_def)

lemma distinct_where_idx: "distinct (where_idx n m)"
  by (simp add: where_idx_def)

lemma length_block_idx: "length (block_idx cfg f xi yi ix iy) = card (block_members cfg f xi yi ix iy)"
  using distinct_card [of "block_idx cfg f xi yi ix iy"]
  by (simp add: set_block_idx [symmetric] block_idx_def distinct_where_idx)

lemma block_members_lt: "i \<in> block_members cfg f xi yi ix iy \<Longrightarrow> i < length xi"
  by (simp add: block_members_def)

lemma finite_block_members: "finite (block_members cfg f xi yi ix iy)"
  by (rule finite_subset [of _ "{..<length xi}"]) (auto simp: block_members_def)

lemma label_block_empty:
  "block_members cfg f xi yi ix iy = {} \<Longrightarrow> label_block cfg f xi yi ix iy st = Inr st"
  using set_block_idx [of cfg f xi yi ix iy]
  by (cases st) (simp add: label_block_def Let_def)

lemma label_block_eq:
  "label_block cfg f xi yi ix iy (cids, nxt) =
     (let M = block_members cfg f xi yi ix iy; B = block_idx cfg f xi yi ix iy;
          m = Max ((\<lambda>j. cids ! j) ` M)
      in if M = {} then Inr (cids, nxt)
         else if \<exists>i \<in> M. cids ! i \<noteq> 0 then Inr (scatter B (\<lambda>i. m) cids, nxt)
         else if min_samples cfg \<le> int (card M) then
           (if nxt > 65535 then Inl OverflowError
            else Inr (scatter B (\<lambda>i. nxt) cids, nxt + 1))
         else Inr (cids, nxt))"
proof (cases "block_members cfg f xi yi ix iy = {}")
  case True
  then show ?thesis by (simp add: label_block_empty)
next
  case False
  let ?B = "block_idx cfg f xi yi ix iy"
  let ?M = "block_members cfg f xi yi ix iy"
  have setB: "set ?B = ?M" by (rule set_block_idx)
  have lenB: "length ?B = card ?M" by (rule length_block_idx)
  have ne: "?B \<noteq> []" using False setB by auto
  have mx: "array_max (map (\<lambda>i. cids ! i) ?B) = Inr (Max ((\<lambda>j. cids ! j) ` ?M))"
    using ne array_max_Max [of "map (\<lambda>i. cids ! i) ?B"] by (simp add: setB)
  have pos: "0 < Max ((\<lambda>j. cids ! j) ` ?M) \<longleftrightarrow> (\<exists>i \<in> ?M. cids ! i \<noteq> 0)"
    using False finite_block_members [of cfg f xi yi ix iy]
    by (subst Max_gr_iff) auto
  have lpos: "\<not> length ?B < 1" using ne by (cases ?B) auto
  show ?thesis
    unfolding label_block_def Let_def prod.case
    by (simp only: lpos mx if_False sum.case pos False) (simp only: lenB)
qed

lemma label_block_step:
  assumes len: "length cids = length xi"
    and run: "label_block cfg f xi yi ix iy (cids, nxt) = Inr (cids', nxt')"
  shows "length cids' = length xi"
    and "\<forall>i < length xi. i \<notin> block_members cfg f xi yi ix iy \<longrightarrow> cids' ! i = cids ! i"
    and "(if \<exists>i \<in> block_members cfg f xi yi ix iy. cids ! i \<noteq> 0
          then (\<forall>i \<in> block_members cfg f xi yi ix iy.
                  cids' ! i = Max ((\<lambda>j. cids ! j) ` block_members cfg f xi yi ix iy))
               \<and> nxt' = nxt
          else if block_members cfg f xi yi ix iy \<noteq> {}
                  \<and> min_samples cfg \<le> int (card (block_members cfg f xi yi ix iy))
          then (\<forall>i \<in> block_members cfg f xi yi ix iy. cids' ! i = nxt)
               \<and> nxt' = nxt + 1 \<and> nxt \<le> 65535
          else cids' = cids \<and> nxt' = nxt)"
proof -
  let ?B = "block_idx cfg f xi yi ix iy"
  let ?M = "block_members cfg f xi yi ix iy"
  have setB: "set ?B = ?M" by (rule set_block_idx)
  have lt: "i < length cids" if "i \<in> ?M" for i
    using that len by (simp add: block_members_def)
  note eq = run [unfolded label_block_eq Let_def]
  show "length cids' = length xi"
    using eq len by (auto simp: length_scatter split: if_splits)
  show "\<forall>i < length xi. i \<notin> ?M \<longrightarrow> cids' ! i = cids ! i"
    using eq len setB by (auto simp: nth_scatter split: if_splits)
  show "(if \<exists>i \<in> ?M. cids ! i \<noteq> 0
          then (\<forall>i \<in> ?M. cids' ! i = Max ((\<lambda>j. cids ! j) ` ?M)) \<and> nxt' = nxt
          else if ?M \<noteq> {} \<and> min_samples cfg \<le> int (card ?M)
          then (\<forall>i \<in> ?M. cids' ! i = nxt) \<and> nxt' = nxt + 1 \<and> nxt \<le> 65535
          else cids' = cids \<and> nxt' = nxt)"
  proof (cases "\<exists>i \<in> ?M. cids ! i \<noteq> 0")
    case True
    then have "?M \<noteq> {}" by auto
    with True eq have "cids' = scatter ?B (\<lambda>i. Max ((\<lambda>j. cids ! j) ` ?M)) cids \<and> nxt' = nxt"
      by simp
    then show ?thesis using True lt setB by (simp add: nth_scatter)
  next
    case no: False
    show ?thesis
    proof (cases "?M \<noteq> {} \<and> min_samples cfg \<le> int (card ?M)")
      case True
      with no eq have "cids' = scatter ?B (\<lambda>i. nxt) cids \<and> nxt' = nxt + 1 \<and> nxt \<le> 65535"
        by (simp split: if_splits)
      then show ?thesis using no True lt setB by (simp add: nth_scatter)
    next
      case nope: False
      with no eq have "cids' = cids \<and> nxt' = nxt"
        by (auto split: if_splits)
      then show ?thesis using no nope by simp
    qed
  qed
qed

lemma for_each_append:
  "for_each (xs @ ys) body s =
     (case for_each xs body s of Inl e \<Rightarrow> Inl e | Inr s' \<Rightarrow> for_each ys body s')"
  by (induction xs arbitrary: s) (simp_all split: sum.splits)

lemma for_each_map: "for_each (map h xs) body s = for_each xs (\<lambda>x. body (h x)) s"
  by (induction xs arbitrary: s) (simp_all split: sum.splits)

lemma for_each_concat_map:
  "for_each (concat (map g xs)) body s = for_each xs (\<lambda>x. for_each (g x) body) s"
  by (induction xs arbitrary: s) (simp_all add: for_each_append split: sum.splits)

lemma for_each_cong:
  "(\<And>x s. x \<in> set xs \<Longrightarrow> body x s = body' x s) \<Longrightarrow> for_each xs body s = for_each xs body' s"
  by (induction xs arbitrary: s) (simp_all split: sum.splits)

lemma for_each_wrapped_range:
  assumes lo: "int16 lo" and hi: "hi \<le> 32767"
    and skip: "\<And>v s. lo = 32767 \<Longrightarrow> v \<le> 32766 \<Longrightarrow> body v s = Inr s"
  shows "for_each (py_range (wrap16 (lo + 1)) hi) body st = for_each [lo + 1..hi - 1] body st"
proof (cases "lo = 32767")
  case True
  have "for_each (py_range (wrap16 (lo + 1)) hi) body st = Inr st"
    using hi by (intro for_each_skip skip [OF True]) (simp add: py_range_def)
  moreover have "[lo + 1..hi - 1] = []" using True hi by simp
  ultimately show ?thesis by simp
next
  case False
  then have "int16 (lo + 1)" using lo by (simp add: int16_def)
  then show ?thesis by (simp add: wrap16_id py_range_def)
qed

lemma Min_int16: "xs \<noteq> [] \<Longrightarrow> list_all int16 xs \<Longrightarrow> int16 (Min (set xs))"
  using Min_in [of "set xs"] by (simp add: list_all_iff)

lemma Max_int16: "xs \<noteq> [] \<Longrightarrow> list_all int16 xs \<Longrightarrow> int16 (Max (set xs))"
  using Max_in [of "set xs"] by (simp add: list_all_iff)

lemma label_column_eq:
  assumes ne: "yi \<noteq> []" and i16: "list_all int16 yi" and len: "length yi = length xi"
  shows "label_column cfg f xi (Some yi) ix st =
     for_each (map (Pair ix) [Min (set yi) + 1..Max (set yi) - 1])
       (\<lambda>b. label_block cfg f xi yi (fst b) (snd b)) st"
proof (cases "length (where_idx (length xi) (in_x cfg f xi ix)) < 1")
  case True
  then have "where_idx (length xi) (in_x cfg f xi ix) = []" by simp
  then have "{i. i < length xi \<and> in_x cfg f xi ix i} = {}"
    using set_where_idx [of "length xi" "in_x cfg f xi ix"] by simp
  then have "block_members cfg f xi yi ix iy = {}" for iy
    by (auto simp: block_members_def in_x_def h_cut_def)
  then have "for_each (map (Pair ix) [Min (set yi) + 1..Max (set yi) - 1])
       (\<lambda>b. label_block cfg f xi yi (fst b) (snd b)) st = Inr st"
    by (intro for_each_skip) (auto simp: label_block_empty)
  then show ?thesis using True by (simp add: label_column_def)
next
  case False
  have skip: "label_block cfg f xi yi ix v s = Inr s"
    if "Min (set yi) = 32767" "v \<le> 32766" for v s
  proof -
    have "block_members cfg f xi yi ix v = {}"
    proof (rule ccontr)
      assume "block_members cfg f xi yi ix v \<noteq> {}"
      then obtain i where i: "i < length xi" "yi ! i \<le> v"
        by (auto simp: block_members_def)
      then have "Min (set yi) \<le> yi ! i" using len by (intro Min_le) simp_all
      with i that show False by simp
    qed
    then show ?thesis by (rule label_block_empty)
  qed
  have "label_column cfg f xi (Some yi) ix st =
      for_each (py_range (wrap16 (Min (set yi) + 1)) (Max (set yi))) (label_block cfg f xi yi ix) st"
    using False ne by (simp add: label_column_def array_min_Min array_max_Max)
  also have "\<dots> = for_each [Min (set yi) + 1..Max (set yi) - 1] (label_block cfg f xi yi ix) st"
    using Min_int16 [OF ne i16] Max_int16 [OF ne i16] skip
    by (intro for_each_wrapped_range) (simp_all add: int16_def)
  finally show ?thesis by (simp add: for_each_map)
qed

lemma clustering_eq_sweep:
  assumes g: "gridded f xi yi" and ne: "xi \<noteq> []"
  shows "clustering cfg f =
     (case builder_sweep cfg f xi yi of
        Inl e \<Rightarrow> Inl e
      | Inr (cids, next_cid) \<Rightarrow> Inr (f\<lparr> cid_arr := cids \<rparr>))"
proof -
  have xo: "x_idx f = Some xi" and yo: "y_idx f = Some yi"
    and len: "length yi = length xi" "length xi = n_points f"
    and i16: "list_all int16 xi" "list_all int16 yi"
    using g by (simp_all add: gridded_def)
  have ney: "yi \<noteq> []" using ne len by auto
  let ?body = "\<lambda>b. label_block cfg f xi yi (fst b) (snd b)"
  let ?s0 = "(replicate (n_points f) (0 :: nat), 1 :: nat)"
  have skip: "label_column cfg f xi (Some yi) v s = Inr s"
    if "Min (set xi) = 32767" "v \<le> 32766" for v s
  proof -
    have "where_idx (length xi) (in_x cfg f xi v) = []"
    proof (rule ccontr)
      assume "where_idx (length xi) (in_x cfg f xi v) \<noteq> []"
      then have "set (where_idx (length xi) (in_x cfg f xi v)) \<noteq> {}" by simp
      then obtain i where i: "i < length xi" "xi ! i \<le> v"
        by (auto simp: set_where_idx in_x_def)
      then have "Min (set xi) \<le> xi ! i" by (intro Min_le) simp_all
      with i that show False by simp
    qed
    then show ?thesis by (simp add: label_column_def)
  qed
  have "for_each (py_range (wrap16 (Min (set xi) + 1)) (Max (set xi)))
          (label_column cfg f xi (Some yi)) ?s0
      = for_each [Min (set xi) + 1..Max (set xi) - 1] (label_column cfg f xi (Some yi)) ?s0"
    using Min_int16 [OF ne i16(1)] Max_int16 [OF ne i16(1)] skip
    by (intro for_each_wrapped_range) (simp_all add: int16_def)
  also have "\<dots> = for_each [Min (set xi) + 1..Max (set xi) - 1]
      (\<lambda>ix. for_each (map (Pair ix) [Min (set yi) + 1..Max (set yi) - 1]) ?body) ?s0"
    by (intro for_each_cong label_column_eq [OF ney i16(2) len(1)])
  also have "\<dots> = builder_sweep cfg f xi yi"
    by (simp add: builder_sweep_def sweep_blocks_def for_each_concat_map len)
  finally have "for_each (py_range (wrap16 (Min (set xi) + 1)) (Max (set xi)))
          (label_column cfg f xi (Some yi)) ?s0 = builder_sweep cfg f xi yi" .
  then show ?thesis
    using ne by (simp add: clustering_def xo yo array_min_Min array_max_Max)
qed

lemma allocates_iff:
  "allocates cfg f xi yi (ix, iy) cids \<longleftrightarrow>
     block_members cfg f xi yi ix iy \<noteq> {}
     \<and> \<not> (\<exists>i \<in> block_members cfg f xi yi ix iy. cids ! i \<noteq> 0)
     \<and> min_samples cfg \<le> int (card (block_members cfg f xi yi ix iy))"
  using set_block_idx [of cfg f xi yi ix iy] length_block_idx [of cfg f xi yi ix iy]
  by (auto simp: allocates_def Let_def)

lemma hd_block_idx:
  "block_members cfg f xi yi ix iy \<noteq> {} \<Longrightarrow>
     hd (block_idx cfg f xi yi ix iy) \<in> block_members cfg f xi yi ix iy"
proof -
  assume "block_members cfg f xi yi ix iy \<noteq> {}"
  then have "block_idx cfg f xi yi ix iy \<noteq> []"
    using set_block_idx [of cfg f xi yi ix iy] by auto
  then have "hd (block_idx cfg f xi yi ix iy) \<in> set (block_idx cfg f xi yi ix iy)"
    by (rule hd_in_set)
  then show ?thesis by (simp add: set_block_idx)
qed

lemma label_block_inv:
  assumes len: "length cids = length xi"
    and run: "label_block cfg f xi yi ix iy (cids, nxt) = Inr (cids', nxt')"
    and bound: "\<forall>i < length xi. cids ! i < nxt"
  shows "length cids' = length xi"
    and "\<forall>i < length xi. cids' ! i < nxt'"
    and "nxt \<le> nxt'"
    and "\<forall>i < length xi. cids ! i \<noteq> 0 \<longrightarrow> cids' ! i \<noteq> 0"
    and "\<forall>i < length xi. cids' ! i \<noteq> cids ! i \<longrightarrow> i \<in> block_members cfg f xi yi ix iy"
    and "if allocates cfg f xi yi (ix, iy) cids
         then nxt' = Suc nxt \<and> cids' ! hd (block_idx cfg f xi yi ix iy) = nxt
         else nxt' = nxt"
proof -
  let ?M = "block_members cfg f xi yi ix iy"
  note st = label_block_step [OF len run]
  have fin: "finite ?M" by (rule finite_block_members)
  have lt: "i < length xi" if "i \<in> ?M" for i using that by (rule block_members_lt)
  show "length cids' = length xi" by (rule st(1))
  show "\<forall>i < length xi. cids' ! i \<noteq> cids ! i \<longrightarrow> i \<in> ?M" using st(2) by blast
  consider (merge) "\<exists>i \<in> ?M. cids ! i \<noteq> 0"
    | (fresh) "\<not> (\<exists>i \<in> ?M. cids ! i \<noteq> 0)" "?M \<noteq> {}" "min_samples cfg \<le> int (card ?M)"
    | (none) "\<not> (\<exists>i \<in> ?M. cids ! i \<noteq> 0)" "\<not> (?M \<noteq> {} \<and> min_samples cfg \<le> int (card ?M))"
    by blast
  then have "(\<forall>i < length xi. cids' ! i < nxt') \<and> nxt \<le> nxt'
      \<and> (\<forall>i < length xi. cids ! i \<noteq> 0 \<longrightarrow> cids' ! i \<noteq> 0)
      \<and> (if allocates cfg f xi yi (ix, iy) cids
          then nxt' = Suc nxt \<and> cids' ! hd (block_idx cfg f xi yi ix iy) = nxt
          else nxt' = nxt)"
  proof cases
    case merge
    then have ne: "?M \<noteq> {}" by auto
    from merge st(3) have m: "\<forall>i \<in> ?M. cids' ! i = Max ((\<lambda>j. cids ! j) ` ?M)" "nxt' = nxt"
      by simp_all
    have "Max ((\<lambda>j. cids ! j) ` ?M) \<in> (\<lambda>j. cids ! j) ` ?M"
      using fin ne by (intro Max_in) auto
    then obtain j where j: "j \<in> ?M" "Max ((\<lambda>j. cids ! j) ` ?M) = cids ! j" by auto
    have mlt: "Max ((\<lambda>j. cids ! j) ` ?M) < nxt" using j bound lt by simp
    have mpos: "0 < Max ((\<lambda>j. cids ! j) ` ?M)"
      using merge fin ne by (subst Max_gr_iff) auto
    have a: "\<forall>i < length xi. cids' ! i < nxt'"
      using m mlt st(2) bound by (metis)
    have b: "\<forall>i < length xi. cids ! i \<noteq> 0 \<longrightarrow> cids' ! i \<noteq> 0"
      using m mpos st(2) by (metis less_numeral_extra(3))
    have c: "\<not> allocates cfg f xi yi (ix, iy) cids"
      using merge by (simp add: allocates_iff)
    show ?thesis using a b c m(2) by simp
  next
    case fresh
    from fresh st(3) have m: "\<forall>i \<in> ?M. cids' ! i = nxt" "nxt' = nxt + 1"
      by simp_all
    have a: "\<forall>i < length xi. cids' ! i < nxt'"
      using m st(2) bound by (metis less_SucI Suc_eq_plus1 lessI)
    have b: "\<forall>i < length xi. cids ! i \<noteq> 0 \<longrightarrow> cids' ! i \<noteq> 0"
      using fresh(1) st(2) by metis
    have c: "allocates cfg f xi yi (ix, iy) cids"
      using fresh by (simp add: allocates_iff)
    have d: "cids' ! hd (block_idx cfg f xi yi ix iy) = nxt"
      using m(1) hd_block_idx [OF fresh(2)] by blast
    show ?thesis using a b c d m(2) by simp
  next
    case none
    from none st(3) have m: "cids' = cids" "nxt' = nxt" by simp_all
    have c: "\<not> allocates cfg f xi yi (ix, iy) cids"
      using none by (auto simp: allocates_iff)
    show ?thesis using m c bound by simp
  qed
  then show "\<forall>i < length xi. cids' ! i < nxt'" "nxt \<le> nxt'"
    "\<forall>i < length xi. cids ! i \<noteq> 0 \<longrightarrow> cids' ! i \<noteq> 0"
    "if allocates cfg f xi yi (ix, iy) cids
         then nxt' = Suc nxt \<and> cids' ! hd (block_idx cfg f xi yi ix iy) = nxt
         else nxt' = nxt"
    by blast+
qed

lemma sweep_inv:
  assumes run: "for_each bs (\<lambda>b. label_block cfg f xi yi (fst b) (snd b)) (cids, nxt)
                  = Inr (cids', nxt')"
    and len: "length cids = length xi"
    and bound: "\<forall>i < length xi. cids ! i < nxt"
  shows "length cids' = length xi \<and> (\<forall>i < length xi. cids' ! i < nxt') \<and> nxt \<le> nxt'
     \<and> (\<forall>i < length xi. cids ! i \<noteq> 0 \<longrightarrow> cids' ! i \<noteq> 0)
     \<and> (\<forall>i < length xi. cids' ! i \<noteq> cids ! i \<longrightarrow>
           dz_local cfg \<le> h_arr f ! i \<and> h_arr f ! i < base_h_cut cfg)
     \<and> issued_ids cfg f xi yi bs (cids, nxt) = [nxt..<nxt']"
  using run len bound
proof (induction bs arbitrary: cids nxt)
  case Nil
  then show ?case by simp
next
  case (Cons b bs)
  obtain ix iy where b: "b = (ix, iy)" by (cases b)
  from Cons.prems(1) obtain c1 n1 where
    step: "label_block cfg f xi yi ix iy (cids, nxt) = Inr (c1, n1)" and
    rest: "for_each bs (\<lambda>b. label_block cfg f xi yi (fst b) (snd b)) (c1, n1) = Inr (cids', nxt')"
    by (auto simp: b split: sum.splits)
  note s = label_block_inv [OF Cons.prems(2) step Cons.prems(3)]
  note ih = Cons.IH [OF rest s(1) s(2)]
  have h: "dz_local cfg \<le> h_arr f ! i \<and> h_arr f ! i < base_h_cut cfg"
    if "i < length xi" "cids' ! i \<noteq> cids ! i" for i
  proof (cases "c1 ! i = cids ! i")
    case True
    then show ?thesis using that ih by simp
  next
    case False
    then have "i \<in> block_members cfg f xi yi ix iy" using s(5) that by blast
    then show ?thesis by (simp add: block_members_def)
  qed
  have iss: "issued_ids cfg f xi yi (b # bs) (cids, nxt) = [nxt..<nxt']"
  proof (cases "allocates cfg f xi yi (ix, iy) cids")
    case True
    then have "n1 = Suc nxt" "c1 ! hd (block_idx cfg f xi yi ix iy) = nxt" using s(6) by simp_all
    moreover have "Suc nxt \<le> nxt'" using ih calculation by simp
    ultimately show ?thesis using True ih step
      by (simp add: b upt_conv_Cons)
  next
    case False
    then have "n1 = nxt" using s(6) by simp
    then show ?thesis using False ih step by (simp add: b)
  qed
  show ?case using ih s(3) s(4) h iss by auto
qed

lemma finite_labelled: "finite (labelled cids)"
  by (simp add: labelled_def)

lemma card_labelled_le: "card (labelled cids) \<le> length cids"
proof -
  have "labelled cids \<subseteq> {..<length cids}" by (auto simp: labelled_def)
  then have "card (labelled cids) \<le> card {..<length cids}" by (intro card_mono) simp_all
  then show ?thesis by simp
qed

lemma label_block_total:
  assumes len: "length cids = length xi"
    and small: "length xi \<le> 65535"
    and cnt: "nxt \<le> Suc (card (labelled cids))" and pos: "1 \<le> nxt"
  shows "\<exists>cids' nxt'. label_block cfg f xi yi ix iy (cids, nxt) = Inr (cids', nxt')
     \<and> length cids' = length xi \<and> nxt' \<le> Suc (card (labelled cids')) \<and> 1 \<le> nxt'"
proof -
  let ?M = "block_members cfg f xi yi ix iy"
  have fin: "finite ?M" by (rule finite_block_members)
  have sub: "?M \<subseteq> {..<length cids}" using len by (auto simp: block_members_def)
  have ok: "nxt \<le> 65535" if fresh: "\<not> (\<exists>i \<in> ?M. cids ! i \<noteq> 0)" "?M \<noteq> {}"
  proof -
    have dis: "labelled cids \<inter> ?M = {}" using fresh by (auto simp: labelled_def)
    have "labelled cids \<union> ?M \<subseteq> {..<length cids}"
      using sub by (auto simp: labelled_def)
    then have "card (labelled cids \<union> ?M) \<le> length cids"
      using card_mono [of "{..<length cids}" "labelled cids \<union> ?M"] by simp
    then have "card (labelled cids) + card ?M \<le> length cids"
      using card_Un_disjoint [OF finite_labelled fin dis] by simp
    moreover have "0 < card ?M" using fresh(2) fin by (simp add: card_gt_0_iff)
    ultimately show ?thesis using cnt len small by linarith
  qed
  have "\<exists>c n. label_block cfg f xi yi ix iy (cids, nxt) = Inr (c, n)"
  proof (cases "?M \<noteq> {} \<and> \<not> (\<exists>i \<in> ?M. cids ! i \<noteq> 0)")
    case True
    then have "\<not> 65535 < nxt" using ok by fastforce
    then show ?thesis by (simp add: label_block_eq Let_def)
  next
    case False
    then show ?thesis by (auto simp: label_block_eq Let_def)
  qed
  then obtain cids' nxt' where
    run: "label_block cfg f xi yi ix iy (cids, nxt) = Inr (cids', nxt')"
    by blast
  note st = label_block_step [OF len run]
  have len': "length cids' = length xi" by (rule st(1))
  have keep: "labelled cids \<subseteq> labelled cids'" if "nxt' = nxt"
  proof (cases "\<exists>i \<in> ?M. cids ! i \<noteq> 0")
    case True
    then have ne: "?M \<noteq> {}" by auto
    from True st(3) have m: "\<forall>i \<in> ?M. cids' ! i = Max ((\<lambda>j. cids ! j) ` ?M)" by simp
    have mpos: "0 < Max ((\<lambda>j. cids ! j) ` ?M)"
      using True fin ne by (subst Max_gr_iff) auto
    show ?thesis
    proof
      fix i assume i: "i \<in> labelled cids"
      then have il: "i < length xi" "cids ! i \<noteq> 0" using len by (simp_all add: labelled_def)
      have "cids' ! i \<noteq> 0"
      proof (cases "i \<in> ?M")
        case True
        then show ?thesis using m mpos by simp
      next
        case False
        then show ?thesis using st(2) il by simp
      qed
      then show "i \<in> labelled cids'" using il len' by (simp add: labelled_def)
    qed
  next
    case False
    with st(3) that have "cids' = cids" by (auto split: if_splits)
    then show ?thesis by simp
  qed
  have cnt': "nxt' \<le> Suc (card (labelled cids'))"
  proof (cases "nxt' = nxt")
    case True
    have "card (labelled cids) \<le> card (labelled cids')"
      using keep [OF True] by (intro card_mono finite_labelled)
    then show ?thesis using True cnt by simp
  next
    case False
    with st(3) have fresh: "\<not> (\<exists>i \<in> ?M. cids ! i \<noteq> 0)" "?M \<noteq> {}"
      and m: "\<forall>i \<in> ?M. cids' ! i = nxt" "nxt' = nxt + 1"
      by (auto split: if_splits)
    have dis: "labelled cids \<inter> ?M = {}" using fresh by (auto simp: labelled_def)
    have "labelled cids \<union> ?M \<subseteq> labelled cids'"
    proof
      fix i assume "i \<in> labelled cids \<union> ?M"
      then consider "i \<in> ?M" | "i \<in> labelled cids" "i \<notin> ?M" by blast
      then show "i \<in> labelled cids'"
      proof cases
        case 1
        then show ?thesis using m pos len' block_members_lt [OF 1] by (simp add: labelled_def)
      next
        case 2
        then show ?thesis using st(2) len len' by (simp add: labelled_def)
      qed
    qed
    then have "card (labelled cids \<union> ?M) \<le> card (labelled cids')"
      by (intro card_mono finite_labelled)
    then have "card (labelled cids) + card ?M \<le> card (labelled cids')"
      using card_Un_disjoint [OF finite_labelled fin dis] by simp
    moreover have "0 < card ?M" using fresh(2) fin by (simp add: card_gt_0_iff)
    ultimately show ?thesis using m(2) cnt by linarith
  qed
  have "1 \<le> nxt'" using st(3) pos by (auto split: if_splits)
  then show ?thesis using run len' cnt' by blast
qed

lemma sweep_total:
  assumes len: "length cids = length xi"
    and small: "length xi \<le> 65535"
    and cnt: "nxt \<le> Suc (card (labelled cids))" and pos: "1 \<le> nxt"
  shows "\<exists>st'. for_each bs (\<lambda>b. label_block cfg f xi yi (fst b) (snd b)) (cids, nxt) = Inr st'"
  using len cnt pos
proof (induction bs arbitrary: cids nxt)
  case Nil
  then show ?case by simp
next
  case (Cons b bs)
  from label_block_total [OF Cons.prems(1) small Cons.prems(2) Cons.prems(3)]
  obtain c1 n1 where
    step: "label_block cfg f xi yi (fst b) (snd b) (cids, nxt) = Inr (c1, n1)" and
    inv: "length c1 = length xi" "n1 \<le> Suc (card (labelled c1))" "1 \<le> n1"
    by blast
  from Cons.IH [OF inv] show ?case using step by simp
qed

lemma clustering_total:
  assumes g: "gridded f xi yi" and ne: "0 < n_points f" and small: "n_points f \<le> 65535"
  shows "\<exists>f'. clustering cfg f = Inr f'"
proof -
  have len: "length xi = n_points f" using g by (simp add: gridded_def)
  then have xne: "xi \<noteq> []" using ne by auto
  have "\<exists>st'. builder_sweep cfg f xi yi = Inr st'"
    unfolding builder_sweep_def using small len
    by (intro sweep_total) simp_all
  then show ?thesis
    unfolding clustering_eq_sweep [OF g xne] by (auto split: prod.splits)
qed

lemma upt7: "[0..<7] = [0, 1, 2, 3, 4, 5, 6]"
  by code_simp

lemma rep7: "replicate 7 (0 :: nat) = [0, 0, 0, 0, 0, 0, 0]"
  by code_simp

lemmas street_defs = street_frame_def street_cfg_def upt7 rep7

lemmas builder_defs = label_block_def block_idx_def where_idx_def in_x_def in_y_def h_cut_def
  array_max_def scatter_def Let_def

lemma street_gridded: "gridded street_frame [0, 0, 1, - 1, 0, 0, 0] [1, 3, 6, 1, 1, 2, 5]"
  by (simp add: gridded_def aligned_def street_frame_def int16_def)

lemma street_blocks: "sweep_blocks [0, 0, 1, - 1, 0, 0, 0] [1, 3, 6, 1, 1, 2, 5] = [(0, 2), (0, 3), (0, 4), (0, 5)]"
  by (simp add: sweep_blocks_def upto.simps)

lemma street_sweep:
  "builder_sweep street_cfg street_frame [0, 0, 1, - 1, 0, 0, 0] [1, 3, 6, 1, 1, 2, 5] = Inr ([1, 2, 0, 0, 0, 0, 0], 3)"
  by (simp add: builder_sweep_def street_blocks builder_defs street_defs)

lemma street_issued:
  "issued_ids street_cfg street_frame [0, 0, 1, - 1, 0, 0, 0] [1, 3, 6, 1, 1, 2, 5]
     (sweep_blocks [0, 0, 1, - 1, 0, 0, 0] [1, 3, 6, 1, 1, 2, 5]) (replicate (n_points street_frame) 0, 1) = [1, 2]"
  by (simp add: street_blocks allocates_def builder_defs street_defs)

text \<open>
  C3. On a gridded frame with at least one point, \<open>clustering\<close> is the sweep over
  the blocks \<open>(ix, iy)\<close>, \<open>ix\<close> from the minimum angular bin plus one to the
  maximum excluded and \<open>iy\<close> likewise over the range bins, each block handled by
  \<open>label_block\<close>; it returns when the frame has at most 65535 points. Only points
  with height in \<open>[dz_local, base_h_cut)\<close> ever get an id. For one block restricted
  to that subset: if a point of the block carries an id, every point of the block
  gets the maximum id of the block; otherwise, if the block is occupied and its
  occupancy is at least \<open>min_samples\<close>, every point gets the fresh id \<open>next_cid\<close>
  and the counter advances; otherwise nothing changes. Points outside the block
  keep their ids.
\<close>

theorem clustering_builder:
  assumes g: "gridded f xi yi" and ne: "0 < n_points f"
  shows "clustering cfg f =
           (case builder_sweep cfg f xi yi of
              Inl e \<Rightarrow> Inl e
            | Inr (cids, next_cid) \<Rightarrow> Inr (f\<lparr> cid_arr := cids \<rparr>))
     \<and> (n_points f \<le> 65535 \<longrightarrow> (\<exists>f'. clustering cfg f = Inr f'))
     \<and> (\<forall>f'. clustering cfg f = Inr f' \<longrightarrow>
           length (cid_arr f') = n_points f
         \<and> (\<forall>i < n_points f. cid_arr f' ! i \<noteq> 0 \<longrightarrow>
               dz_local cfg \<le> h_arr f ! i \<and> h_arr f ! i < base_h_cut cfg))
     \<and> (\<forall>ix iy cids nxt cids' nxt'.
           length cids = n_points f \<longrightarrow>
           label_block cfg f xi yi ix iy (cids, nxt) = Inr (cids', nxt') \<longrightarrow>
             length cids' = n_points f
           \<and> (\<forall>i < n_points f. i \<notin> block_members cfg f xi yi ix iy \<longrightarrow> cids' ! i = cids ! i)
           \<and> (if \<exists>i \<in> block_members cfg f xi yi ix iy. cids ! i \<noteq> 0
               then (\<forall>i \<in> block_members cfg f xi yi ix iy.
                       cids' ! i = Max ((\<lambda>j. cids ! j) ` block_members cfg f xi yi ix iy))
                    \<and> nxt' = nxt
               else if block_members cfg f xi yi ix iy \<noteq> {}
                       \<and> min_samples cfg \<le> int (card (block_members cfg f xi yi ix iy))
               then (\<forall>i \<in> block_members cfg f xi yi ix iy. cids' ! i = nxt)
                    \<and> nxt' = nxt + 1 \<and> nxt \<le> 65535
               else cids' = cids \<and> nxt' = nxt))"
proof -
  have len: "length xi = n_points f" using g by (simp add: gridded_def)
  then have xne: "xi \<noteq> []" using ne by auto
  note eq = clustering_eq_sweep [OF g xne, of cfg]
  have tot: "\<exists>f'. clustering cfg f = Inr f'" if "n_points f \<le> 65535"
    using clustering_total [OF g ne that] .
  have sub: "length (cid_arr f') = n_points f
         \<and> (\<forall>i < n_points f. cid_arr f' ! i \<noteq> 0 \<longrightarrow>
               dz_local cfg \<le> h_arr f ! i \<and> h_arr f ! i < base_h_cut cfg)"
    if run: "clustering cfg f = Inr f'" for f'
  proof -
    from run eq obtain cids nxt where
      sw: "builder_sweep cfg f xi yi = Inr (cids, nxt)" and f': "f' = f\<lparr> cid_arr := cids \<rparr>"
      by (auto split: sum.splits prod.splits)
    have "length (replicate (length xi) (0 :: nat)) = length xi"
      "\<forall>i < length xi. replicate (length xi) (0 :: nat) ! i < 1"
      by simp_all
    from sweep_inv [OF sw [unfolded builder_sweep_def] this]
    have "length cids = length xi"
      "\<forall>i < length xi. cids ! i \<noteq> replicate (length xi) 0 ! i \<longrightarrow>
           dz_local cfg \<le> h_arr f ! i \<and> h_arr f ! i < base_h_cut cfg"
      by blast+
    then show ?thesis using f' len by simp
  qed
  have blk: "length cids' = n_points f
           \<and> (\<forall>i < n_points f. i \<notin> block_members cfg f xi yi ix iy \<longrightarrow> cids' ! i = cids ! i)
           \<and> (if \<exists>i \<in> block_members cfg f xi yi ix iy. cids ! i \<noteq> 0
               then (\<forall>i \<in> block_members cfg f xi yi ix iy.
                       cids' ! i = Max ((\<lambda>j. cids ! j) ` block_members cfg f xi yi ix iy))
                    \<and> nxt' = nxt
               else if block_members cfg f xi yi ix iy \<noteq> {}
                       \<and> min_samples cfg \<le> int (card (block_members cfg f xi yi ix iy))
               then (\<forall>i \<in> block_members cfg f xi yi ix iy. cids' ! i = nxt)
                    \<and> nxt' = nxt + 1 \<and> nxt \<le> 65535
               else cids' = cids \<and> nxt' = nxt)"
    if "length cids = n_points f" "label_block cfg f xi yi ix iy (cids, nxt) = Inr (cids', nxt')"
    for ix iy cids nxt cids' nxt'
    using label_block_step [OF that(1) [folded len] that(2)] len by simp
  show ?thesis using eq tot sub blk by blast
qed

theorem clustering_builder_witness:
  "gridded street_frame [0, 0, 1, - 1, 0, 0, 0] [1, 3, 6, 1, 1, 2, 5] \<and> 0 < n_points street_frame
   \<and> n_points street_frame \<le> 65535
   \<and> sweep_blocks [0, 0, 1, - 1, 0, 0, 0] [1, 3, 6, 1, 1, 2, 5] = [(0, 2), (0, 3), (0, 4), (0, 5)]
   \<and> clustering street_cfg street_frame = Inr (street_frame\<lparr> cid_arr := [1, 2, 0, 0, 0, 0, 0] \<rparr>)"
proof -
  have ne: "0 < n_points street_frame" "n_points street_frame \<le> 65535"
    by (simp_all add: street_frame_def)
  from clustering_builder [OF street_gridded ne(1), of street_cfg]
  have "clustering street_cfg street_frame =
           (case builder_sweep street_cfg street_frame [0, 0, 1, - 1, 0, 0, 0] [1, 3, 6, 1, 1, 2, 5] of
              Inl e \<Rightarrow> Inl e
            | Inr (cids, next_cid) \<Rightarrow> Inr (street_frame\<lparr> cid_arr := cids \<rparr>))"
    by blast
  then have "clustering street_cfg street_frame = Inr (street_frame\<lparr> cid_arr := [1, 2, 0, 0, 0, 0, 0] \<rparr>)"
    by (simp add: street_sweep)
  then show ?thesis using street_gridded ne street_blocks by simp
qed

text \<open>
  C4. When \<open>clustering\<close> returns, the ids issued in sweep order are
  \<open>1, 2, ..., k\<close>, the \<open>j\<close>-th allocation issuing the id \<open>j\<close>, where \<open>k\<close> is the
  number of blocks that triggered an allocation; and no point carries an id above
  \<open>k\<close>.
\<close>

theorem clustering_ids_consecutive:
  assumes g: "gridded f xi yi" and run: "clustering cfg f = Inr f'"
  shows "\<exists>k. issued_ids cfg f xi yi (sweep_blocks xi yi) (replicate (n_points f) 0, 1)
               = [1..<Suc k]
     \<and> (\<forall>j < k. issued_ids cfg f xi yi (sweep_blocks xi yi) (replicate (n_points f) 0, 1) ! j
                    = Suc j)
     \<and> (\<forall>i < n_points f. cid_arr f' ! i \<le> k)"
proof -
  have len: "length xi = n_points f" and xo: "x_idx f = Some xi"
    using g by (simp_all add: gridded_def)
  have xne: "xi \<noteq> []"
    using run xo by (auto simp: clustering_def array_min_def)
  from run clustering_eq_sweep [OF g xne, of cfg] obtain cids nxt where
    sw: "builder_sweep cfg f xi yi = Inr (cids, nxt)" and f': "f' = f\<lparr> cid_arr := cids \<rparr>"
    by (auto split: sum.splits prod.splits)
  have "length (replicate (length xi) (0 :: nat)) = length xi"
    "\<forall>i < length xi. replicate (length xi) (0 :: nat) ! i < 1"
    by simp_all
  from sweep_inv [OF sw [unfolded builder_sweep_def] this]
  have b: "\<forall>i < length xi. cids ! i < nxt" and one: "1 \<le> nxt"
    and iss: "issued_ids cfg f xi yi (sweep_blocks xi yi) (replicate (length xi) 0, 1) = [1..<nxt]"
    by blast+
  let ?k = "nxt - 1"
  have k: "Suc ?k = nxt" using one by simp
  have i1: "issued_ids cfg f xi yi (sweep_blocks xi yi) (replicate (n_points f) 0, 1) = [1..<Suc ?k]"
    using iss k len by simp
  have i2: "\<forall>j < ?k. [1..<Suc ?k] ! j = Suc j" by simp
  have i3: "cid_arr f' ! i \<le> ?k" if "i < n_points f" for i
  proof -
    have "cids ! i < nxt" using b that len by simp
    then show ?thesis using f' by simp
  qed
  show ?thesis
  proof (intro exI [of _ ?k] conjI allI impI)
    show "issued_ids cfg f xi yi (sweep_blocks xi yi) (replicate (n_points f) 0, 1) = [1..<Suc ?k]"
      by (rule i1)
    show "issued_ids cfg f xi yi (sweep_blocks xi yi) (replicate (n_points f) 0, 1) ! j = Suc j"
      if "j < ?k" for j
      unfolding i1 using i2 that by blast
    show "cid_arr f' ! i \<le> ?k" if "i < n_points f" for i
      using i3 that .
  qed
qed

theorem clustering_ids_consecutive_witness:
  "gridded street_frame [0, 0, 1, - 1, 0, 0, 0] [1, 3, 6, 1, 1, 2, 5]
   \<and> clustering street_cfg street_frame = Inr (street_frame\<lparr> cid_arr := [1, 2, 0, 0, 0, 0, 0] \<rparr>)
   \<and> issued_ids street_cfg street_frame [0, 0, 1, - 1, 0, 0, 0] [1, 3, 6, 1, 1, 2, 5]
        (sweep_blocks [0, 0, 1, - 1, 0, 0, 0] [1, 3, 6, 1, 1, 2, 5]) (replicate (n_points street_frame) 0, 1)
      = [1, 2]
   \<and> (\<exists>k. issued_ids street_cfg street_frame [0, 0, 1, - 1, 0, 0, 0] [1, 3, 6, 1, 1, 2, 5]
        (sweep_blocks [0, 0, 1, - 1, 0, 0, 0] [1, 3, 6, 1, 1, 2, 5]) (replicate (n_points street_frame) 0, 1)
          = [1..<Suc k]
        \<and> cid_arr (street_frame\<lparr> cid_arr := [1, 2, 0, 0, 0, 0, 0] \<rparr>) ! 1 \<le> k)"
proof -
  have xne: "[0, 0, 1, - 1, 0, 0, 0] \<noteq> ([] :: int list)" by simp
  have run: "clustering street_cfg street_frame = Inr (street_frame\<lparr> cid_arr := [1, 2, 0, 0, 0, 0, 0] \<rparr>)"
    by (simp add: clustering_eq_sweep [OF street_gridded xne] street_sweep)
  have n: "1 < n_points street_frame" by (simp add: street_frame_def)
  from clustering_ids_consecutive [OF street_gridded run] n
  have "\<exists>k. issued_ids street_cfg street_frame [0, 0, 1, - 1, 0, 0, 0] [1, 3, 6, 1, 1, 2, 5]
        (sweep_blocks [0, 0, 1, - 1, 0, 0, 0] [1, 3, 6, 1, 1, 2, 5]) (replicate (n_points street_frame) 0, 1)
          = [1..<Suc k]
        \<and> cid_arr (street_frame\<lparr> cid_arr := [1, 2, 0, 0, 0, 0, 0] \<rparr>) ! 1 \<le> k"
    by blast
  then show ?thesis using street_gridded run street_issued by simp
qed

subsection \<open>Cluster Grower\<close>

lemma mark_nearby_step:
  assumes "length cids = length xi" "length sel = length xi"
  shows "mark_nearby cfg f xi yi cid h0 g (cids, sel) =
     (map (\<lambda>i. if hit cfg f xi yi h0 g i then cid else cids ! i) [0..<length xi],
      map (\<lambda>i. sel ! i \<or> hit cfg f xi yi h0 g i) [0..<length xi])"
proof -
  obtain ix iy where g: "g = (ix, iy)" by (cases g)
  let ?nearby = "map (\<lambda>i. near16 (xi ! i) ix \<and> near16 (yi ! i) iy \<and> in_layer cfg f h0 i)
                       [0..<length xi]"
  have a: "scatter (where_idx (length xi) (\<lambda>i. ?nearby ! i)) (\<lambda>i. cid) cids
      = map (\<lambda>i. if hit cfg f xi yi h0 g i then cid else cids ! i) [0..<length xi]"
    using assms(1)
    by (intro nth_equalityI) (simp_all add: length_scatter nth_scatter set_where_idx hit_def g)
  have b: "map2 (\<or>) sel ?nearby = map (\<lambda>i. sel ! i \<or> hit cfg f xi yi h0 g i) [0..<length xi]"
    using assms(2) by (intro nth_equalityI) (simp_all add: hit_def g)
  show ?thesis
    unfolding mark_nearby_def g prod.case Let_def a [unfolded g] b [unfolded g] ..
qed

lemma fold_mark_nearby:
  assumes "length cids = length xi" "length sel = length xi"
  shows "fold (mark_nearby cfg f xi yi cid h0) gs (cids, sel) =
     (map (\<lambda>i. if \<exists>g \<in> set gs. hit cfg f xi yi h0 g i then cid else cids ! i) [0..<length xi],
      map (\<lambda>i. sel ! i \<or> (\<exists>g \<in> set gs. hit cfg f xi yi h0 g i)) [0..<length xi])"
  using assms
proof (induction gs arbitrary: cids sel)
  case Nil
  then show ?case by (simp add: map_nth [symmetric] del: map_nth) (metis map_nth)
next
  case (Cons g gs)
  let ?c = "map (\<lambda>i. if hit cfg f xi yi h0 g i then cid else cids ! i) [0..<length xi]"
  let ?s = "map (\<lambda>i. sel ! i \<or> hit cfg f xi yi h0 g i) [0..<length xi]"
  have "fold (mark_nearby cfg f xi yi cid h0) (g # gs) (cids, sel)
      = fold (mark_nearby cfg f xi yi cid h0) gs (?c, ?s)"
    by (simp add: mark_nearby_step [OF Cons.prems])
  also have "\<dots> = (map (\<lambda>i. if \<exists>g \<in> set gs. hit cfg f xi yi h0 g i then cid else ?c ! i)
                        [0..<length xi],
                    map (\<lambda>i. ?s ! i \<or> (\<exists>g \<in> set gs. hit cfg f xi yi h0 g i)) [0..<length xi])"
    by (rule Cons.IH) simp_all
  also have "\<dots> = (map (\<lambda>i. if \<exists>g \<in> set (g # gs). hit cfg f xi yi h0 g i then cid else cids ! i)
                        [0..<length xi],
                    map (\<lambda>i. sel ! i \<or> (\<exists>g \<in> set (g # gs). hit cfg f xi yi h0 g i))
                        [0..<length xi])"
    by (auto intro!: nth_equalityI)
  finally show ?case .
qed

lemma near16_iff:
  assumes "int16 a" "int16 b" "\<bar>a - b\<bar> < 32768"
  shows "near16 a b \<longleftrightarrow> \<bar>a - b\<bar> \<le> 1"
proof -
  have "int16 (a - b)" using assms(3) by (simp add: int16_def abs_less_iff)
  then have w: "wrap16 (a - b) = a - b" by (simp add: wrap16_def int16_def)
  have "int16 \<bar>a - b\<bar>" using assms(3) by (simp add: int16_def)
  then have "wrap16 \<bar>a - b\<bar> = \<bar>a - b\<bar>" by (simp add: wrap16_def int16_def)
  then show ?thesis unfolding near16_def w by auto
qed

lemma near16_refl_close: "int16 a \<Longrightarrow> int16 b \<Longrightarrow> \<bar>a - b\<bar> \<le> 1 \<Longrightarrow> near16 a b"
  using near16_iff [of a b] by simp



lemma grow_layers_changes:
  assumes "length cids = length xi"
  shows "length (grow_layers cfg f xi yi cid hs grids cids) = length xi
     \<and> (\<forall>i < length xi. grow_layers cfg f xi yi cid hs grids cids ! i \<noteq> cids ! i \<longrightarrow>
           (\<exists>h0 \<in> set hs. in_layer cfg f h0 i))"
  using assms
proof (induction hs arbitrary: grids cids)
  case Nil
  then show ?case by simp
next
  case (Cons h0 hs)
  let ?c = "map (\<lambda>i. if \<exists>g \<in> set grids. hit cfg f xi yi h0 g i then cid else cids ! i)
              [0..<length xi]"
  let ?s = "map (\<lambda>i. replicate (length cids) False ! i \<or> (\<exists>g \<in> set grids. hit cfg f xi yi h0 g i))
              [0..<length xi]"
  have fm: "fold (mark_nearby cfg f xi yi cid h0) grids (cids, replicate (length cids) False)
      = (?c, ?s)"
    using Cons.prems by (intro fold_mark_nearby) simp_all
  have lc: "length ?c = length xi" by simp
  have ch: "in_layer cfg f h0 i" if "i < length xi" "?c ! i \<noteq> cids ! i" for i
    using that by (auto simp: hit_def split: if_splits)
  let ?g' = "unique_rows (map (\<lambda>i. (xi ! i, yi ! i)) (where_idx (length ?s) (\<lambda>i. ?s ! i)))"
  have step: "grow_layers cfg f xi yi cid (h0 # hs) grids cids
      = (if length (filter (\<lambda>b. b) ?s) < 1 then ?c else grow_layers cfg f xi yi cid hs ?g' ?c)"
    by (simp only: grow_layers.simps fm prod.case)
  show ?case
  proof (cases "length (filter (\<lambda>b. b) ?s) < 1")
    case True
    have "grow_layers cfg f xi yi cid (h0 # hs) grids cids = ?c"
      by (simp only: step True if_True)
    then show ?thesis using ch by auto
  next
    case False
    have eq: "grow_layers cfg f xi yi cid (h0 # hs) grids cids
        = grow_layers cfg f xi yi cid hs ?g' ?c"
      by (simp only: step False if_False)
    note ih = Cons.IH [OF lc, of ?g']
    have "\<exists>h \<in> set (h0 # hs). in_layer cfg f h i"
      if i: "i < length xi" and ne: "grow_layers cfg f xi yi cid hs ?g' ?c ! i \<noteq> cids ! i" for i
    proof (cases "?c ! i = cids ! i")
      case True
      then show ?thesis using ih i ne by auto
    next
      case False
      then show ?thesis using ch [OF i] by simp
    qed
    then show ?thesis unfolding eq using ih by blast
  qed
qed

lemma arange_Inr:
  "arange a b s = Inr hs \<longleftrightarrow>
     s \<noteq> 0 \<and> hs = map (\<lambda>k. a + real k * s) [0..<nat \<lceil>(b - a) / s\<rceil>]"
  by (auto simp: arange_def)

lemma arange_layer_starts:
  "arange (base_h_cut cfg) (h_max_cut cfg) (h_grid_size cfg) = Inr hs \<Longrightarrow> hs = layer_starts cfg"
  by (simp add: arange_Inr layer_starts_def)

lemma in_layer_above:
  assumes "h0 \<in> set (layer_starts cfg)" and "in_layer cfg f h0 i"
  shows "base_h_cut cfg \<le> h_arr f ! i"
proof -
  from assms(1) obtain k :: nat where h0: "h0 = base_h_cut cfg + real k * h_grid_size cfg"
    by (auto simp: layer_starts_def)
  from assms(2) have l: "h0 \<le> h_arr f ! i" "h_arr f ! i < h0 + h_grid_size cfg"
    by (simp_all add: in_layer_def)
  then have "0 < h_grid_size cfg" by linarith
  then have "0 \<le> real k * h_grid_size cfg" by simp
  then show ?thesis using h0 l(1) by linarith
qed

lemma grow_one_changes:
  assumes len: "length cids = length xi"
    and run: "grow_one cfg f xi yi cid cids = Inr c'"
  shows "length c' = length xi
     \<and> (\<forall>i < length xi. c' ! i \<noteq> cids ! i \<longrightarrow> base_h_cut cfg \<le> h_arr f ! i)"
proof (cases "length (where_idx (length cids)
                 (\<lambda>i. connect_layer cfg f i \<and> cids ! i = cid)) < 1")
  case True
  then have "c' = cids" using run by (simp add: grow_one_def Let_def)
  then show ?thesis using len by simp
next
  case False
  then obtain hs where
    ar: "arange (base_h_cut cfg) (h_max_cut cfg) (h_grid_size cfg) = Inr hs" and
    c': "c' = grow_layers cfg f xi yi cid hs
               (unique_rows (map (\<lambda>i. (xi ! i, yi ! i))
                  (where_idx (length cids) (\<lambda>i. connect_layer cfg f i \<and> cids ! i = cid)))) cids"
    using run by (auto simp: grow_one_def Let_def split: sum.splits)
  have hs: "hs = layer_starts cfg" using ar by (rule arange_layer_starts)
  from grow_layers_changes [OF len, of cfg f yi cid hs] c'
  show ?thesis using in_layer_above [of _ cfg f] unfolding hs by blast
qed

lemma grow_loop_changes:
  assumes len: "length cids = length xi"
    and run: "for_each cs (grow_one cfg f xi yi) cids = Inr c'"
  shows "length c' = length xi
     \<and> (\<forall>i < length xi. c' ! i \<noteq> cids ! i \<longrightarrow> base_h_cut cfg \<le> h_arr f ! i)"
  using len run
proof (induction cs arbitrary: cids)
  case Nil
  then show ?case by simp
next
  case (Cons c cs)
  from Cons.prems(2) obtain c1 where
    step: "grow_one cfg f xi yi c cids = Inr c1" and
    rest: "for_each cs (grow_one cfg f xi yi) c1 = Inr c'"
    by (auto split: sum.splits)
  note s = grow_one_changes [OF Cons.prems(1) step]
  from s have l1: "length c1 = length xi" by simp
  note ih = Cons.IH [OF l1 rest]
  show ?case using s ih by metis
qed

lemma grow_cluster_Inr:
  assumes g: "gridded f xi yi" and run: "grow_cluster cfg f = Inr f'"
  shows "\<exists>m cids. cid_arr f \<noteq> [] \<and> m = Max (set (cid_arr f))
     \<and> for_each (map nat (py_range 1 (int (wrap_u16 (m + 1))))) (grow_one cfg f xi yi) (cid_arr f)
         = Inr cids
     \<and> f' = f\<lparr> cid_arr := cids \<rparr>"
proof -
  have xo: "x_idx f = Some xi" "y_idx f = Some yi" using g by (simp_all add: gridded_def)
  have ne: "cid_arr f \<noteq> []"
    using run xo by (auto simp: grow_cluster_def array_max_def)
  have mx: "array_max (cid_arr f) = Inr (Max (set (cid_arr f)))"
    using ne by (cases "cid_arr f") (simp_all add: array_max_def Max.set_eq_fold [symmetric])
  show ?thesis
    using run ne by (auto simp: grow_cluster_def xo mx split: sum.splits)
qed

lemma grow_cluster_changes:
  assumes g: "gridded f xi yi" and run: "grow_cluster cfg f = Inr f'"
  shows "length (cid_arr f') = n_points f"
    and "\<forall>i < n_points f. cid_arr f' ! i \<noteq> cid_arr f ! i \<longrightarrow> base_h_cut cfg \<le> h_arr f ! i"
    and "h_arr f' = h_arr f"
proof -
  have len: "length (cid_arr f) = length xi" "length xi = n_points f"
    using g by (simp_all add: gridded_def aligned_def)
  from grow_cluster_Inr [OF g run] obtain cids where
    loop: "for_each (map nat (py_range 1 (int (wrap_u16 (Max (set (cid_arr f)) + 1)))))
             (grow_one cfg f xi yi) (cid_arr f) = Inr cids" and
    f': "f' = f\<lparr> cid_arr := cids \<rparr>"
    by blast
  note c = grow_loop_changes [OF len(1) loop]
  show "length (cid_arr f') = n_points f" using c f' len by simp
  show "\<forall>i < n_points f. cid_arr f' ! i \<noteq> cid_arr f ! i \<longrightarrow> base_h_cut cfg \<le> h_arr f ! i"
    using c f' len by simp
  show "h_arr f' = h_arr f" using f' by simp
qed















lemma upt2: "[0..<2] = [0, 1]" by code_simp


lemma street_grow_1:
  "grow_one street_cfg grown_street [0, 0, 1, - 1, 0, 0, 0] [1, 3, 6, 1, 1, 2, 5] 1 [1, 2, 0, 0, 0, 0, 0]
     = Inr [1, 2, 0, 0, 1, 1, 0]"
  by code_simp

lemma street_grow_2:
  "grow_one street_cfg grown_street [0, 0, 1, - 1, 0, 0, 0] [1, 3, 6, 1, 1, 2, 5] 2 [1, 2, 0, 0, 1, 1, 0]
     = Inr [1, 2, 0, 0, 1, 2, 0]"
  by code_simp


lemma street_grow:
  "grow_cluster street_cfg grown_street = Inr (grown_street\<lparr> cid_arr := [1, 2, 0, 0, 1, 2, 0] \<rparr>)"
proof -
  have x: "x_idx grown_street = Some [0, 0, 1, - 1, 0, 0, 0]"
    "y_idx grown_street = Some [1, 3, 6, 1, 1, 2, 5]"
    "cid_arr grown_street = [1, 2, 0, 0, 0, 0, 0]"
    by (simp_all add: grown_street_def street_frame_def)
  have m: "array_max [1, 2, 0, 0, 0, 0, 0 :: nat] = Inr 2" by (simp add: array_max_def)
  have r: "map nat (py_range 1 (int (wrap_u16 (2 + 1)))) = [1, 2]"
    by (simp add: py_range_def wrap_u16_def upto.simps)
  show ?thesis
    by (simp only: grow_cluster_def x option.case m sum.case r for_each.simps
          street_grow_1 street_grow_2)
qed





















lemma clustering_band:
  assumes g: "gridded f xi yi" and run: "clustering cfg f = Inr f'"
  shows "gridded f' xi yi" and "h_arr f' = h_arr f" and "n_points f' = n_points f"
    and "\<forall>i < n_points f. cid_arr f' ! i \<noteq> 0 \<longrightarrow>
           dz_local cfg \<le> h_arr f ! i \<and> h_arr f ! i < base_h_cut cfg"
proof -
  have xo: "x_idx f = Some xi" and len: "length xi = n_points f"
    using g by (simp_all add: gridded_def)
  have ne: "xi \<noteq> []"
  proof
    assume "xi = []"
    then have "clustering cfg f = Inl ValueError" using xo by (intro clustering_void) simp
    then show False using run by simp
  qed
  from run obtain cids nxt where
    sw: "builder_sweep cfg f xi yi = Inr (cids, nxt)" and f': "f' = f\<lparr> cid_arr := cids \<rparr>"
    unfolding clustering_eq_sweep [OF g ne] by (auto split: sum.splits prod.splits)
  have "for_each (sweep_blocks xi yi) (\<lambda>b. label_block cfg f xi yi (fst b) (snd b))
          (replicate (length xi) 0, 1) = Inr (cids, nxt)"
    using sw by (simp add: builder_sweep_def)
  from sweep_inv [OF this] have
    lc: "length cids = length xi" and
    band: "\<forall>i < length xi. cids ! i \<noteq> replicate (length xi) 0 ! i \<longrightarrow>
             dz_local cfg \<le> h_arr f ! i \<and> h_arr f ! i < base_h_cut cfg"
    by simp_all
  show "gridded f' xi yi" using g lc len unfolding f' by (simp add: gridded_def aligned_def)
  show "h_arr f' = h_arr f" "n_points f' = n_points f" unfolding f' by simp_all
  show "\<forall>i < n_points f. cid_arr f' ! i \<noteq> 0 \<longrightarrow>
           dz_local cfg \<le> h_arr f ! i \<and> h_arr f ! i < base_h_cut cfg"
    using band len unfolding f' by simp
qed

lemma builder_ids_kept:
  assumes g: "gridded f xi yi" and cl: "clustering cfg f = Inr f'"
    and gr: "grow_cluster cfg f' = Inr f''"
  shows "length (cid_arr f') = n_points f" and "length (cid_arr f'') = n_points f"
    and "\<forall>i < n_points f. cid_arr f' ! i \<noteq> 0 \<longrightarrow>
           h_arr f ! i < base_h_cut cfg \<and> cid_arr f'' ! i = cid_arr f' ! i"
    and "\<forall>i < n_points f. cid_arr f'' ! i \<noteq> cid_arr f' ! i \<longrightarrow>
           cid_arr f' ! i = 0 \<and> base_h_cut cfg \<le> h_arr f ! i"
proof -
  note b = clustering_band [OF g cl]
  note c = grow_cluster_changes [OF b(1) gr]
  show "length (cid_arr f') = n_points f"
    using b(1) b(3) by (simp add: gridded_def aligned_def)
  show "length (cid_arr f'') = n_points f" using c(1) b(3) by simp
  have ch: "base_h_cut cfg \<le> h_arr f ! i"
    if "i < n_points f" "cid_arr f'' ! i \<noteq> cid_arr f' ! i" for i
    using c(2) that b(2) b(3) by simp
  have lo: "h_arr f ! i < base_h_cut cfg" if "i < n_points f" "cid_arr f' ! i \<noteq> 0" for i
    using b(4) that by blast
  show "\<forall>i < n_points f. cid_arr f' ! i \<noteq> 0 \<longrightarrow>
           h_arr f ! i < base_h_cut cfg \<and> cid_arr f'' ! i = cid_arr f' ! i"
    using ch lo by (metis not_le)
  show "\<forall>i < n_points f. cid_arr f'' ! i \<noteq> cid_arr f' ! i \<longrightarrow>
           cid_arr f' ! i = 0 \<and> base_h_cut cfg \<le> h_arr f ! i"
    using ch lo by (metis not_le)
qed

text \<open>
  C10 (amended). Cluster membership established by the Cluster Builder is
  preserved by the Cluster Grower: a point that carries an id after \<open>clustering\<close>
  lies below \<open>base_h_cut\<close> and carries the same id after \<open>grow_cluster\<close>. The
  Grower changes the id only of points at or above \<open>base_h_cut\<close> that had no id
  after \<open>clustering\<close>; among those, growth of a later id overwrites the id that
  growth of an earlier id gave.
\<close>

theorem grower_keeps_builder_ids:
  assumes g: "gridded f xi yi" and cl: "clustering cfg f = Inr f'"
    and gr: "grow_cluster cfg f' = Inr f''"
  shows "length (cid_arr f') = n_points f \<and> length (cid_arr f'') = n_points f
     \<and> (\<forall>i < n_points f. cid_arr f' ! i \<noteq> 0 \<longrightarrow>
           h_arr f ! i < base_h_cut cfg \<and> cid_arr f'' ! i = cid_arr f' ! i)
     \<and> (\<forall>i < n_points f. cid_arr f'' ! i \<noteq> cid_arr f' ! i \<longrightarrow>
           cid_arr f' ! i = 0 \<and> base_h_cut cfg \<le> h_arr f ! i)"
  using builder_ids_kept [OF g cl gr] by (intro conjI)

lemma street_clustering: "clustering street_cfg street_frame = Inr grown_street"
proof -
  have ne: "[0, 0, 1, - 1, 0, 0, 0] \<noteq> ([] :: int list)" by simp
  show ?thesis
    unfolding clustering_eq_sweep [OF street_gridded ne] street_sweep grown_street_def
    by simp
qed

theorem grower_keeps_builder_ids_witness:
  "gridded street_frame [0, 0, 1, - 1, 0, 0, 0] [1, 3, 6, 1, 1, 2, 5]
   \<and> clustering street_cfg street_frame = Inr grown_street
   \<and> grow_cluster street_cfg grown_street
        = Inr (grown_street\<lparr> cid_arr := [1, 2, 0, 0, 1, 2, 0] \<rparr>)
   \<and> cid_arr grown_street = [1, 2, 0, 0, 0, 0, 0]
   \<and> h_arr street_frame = [2, 2, 0, 0, 7 / 2, 7 / 2, 0] \<and> base_h_cut street_cfg = 3
   \<and> cid_arr (grown_street\<lparr> cid_arr := [1, 2, 0, 0, 1, 2, 0] \<rparr>) ! 0 = cid_arr grown_street ! 0
   \<and> cid_arr (grown_street\<lparr> cid_arr := [1, 2, 0, 0, 1, 2, 0] \<rparr>) ! 1 = cid_arr grown_street ! 1
   \<and> grow_one street_cfg grown_street [0, 0, 1, - 1, 0, 0, 0] [1, 3, 6, 1, 1, 2, 5] 1
        [1, 2, 0, 0, 0, 0, 0] = Inr [1, 2, 0, 0, 1, 1, 0]
   \<and> grow_one street_cfg grown_street [0, 0, 1, - 1, 0, 0, 0] [1, 3, 6, 1, 1, 2, 5] 2
        [1, 2, 0, 0, 1, 1, 0] = Inr [1, 2, 0, 0, 1, 2, 0]"
proof -
  let ?g = "grown_street\<lparr> cid_arr := [1, 2, 0, 0, 1, 2, 0] \<rparr>"
  note k = grower_keeps_builder_ids [OF street_gridded street_clustering street_grow]
  have c: "cid_arr grown_street = [1, 2, 0, 0, 0, 0, 0]" by (simp add: grown_street_def)
  have h: "h_arr street_frame = [2, 2, 0, 0, 7 / 2, 7 / 2, 0]" "base_h_cut street_cfg = 3"
    by (simp_all add: street_frame_def street_cfg_def)
  have n: "0 < n_points street_frame" "1 < n_points street_frame"
    by (simp_all add: street_frame_def)
  have nz: "cid_arr grown_street ! 0 \<noteq> 0" "cid_arr grown_street ! 1 \<noteq> 0"
    unfolding c by simp_all
  from k have keep: "\<forall>i < n_points street_frame. cid_arr grown_street ! i \<noteq> 0 \<longrightarrow>
      h_arr street_frame ! i < base_h_cut street_cfg \<and> cid_arr ?g ! i = cid_arr grown_street ! i"
    by blast
  have k0: "cid_arr ?g ! 0 = cid_arr grown_street ! 0"
    using keep [rule_format, OF n(1) nz(1)] by (rule conjunct2)
  have k1: "cid_arr ?g ! 1 = cid_arr grown_street ! 1"
    using keep [rule_format, OF n(2) nz(2)] by (rule conjunct2)
  show ?thesis
    using street_gridded street_clustering street_grow c h k0 k1 street_grow_1 street_grow_2
    by (intro conjI)
qed

theorem grower_overwrite_counterexample:
  "\<not> (\<exists>cfg f xi yi f' f'' i.
         gridded f xi yi \<and> clustering cfg f = Inr f' \<and> grow_cluster cfg f' = Inr f''
       \<and> i < n_points f \<and> cid_arr f' ! i \<noteq> 0 \<and> cid_arr f'' ! i \<noteq> 0
       \<and> cid_arr f'' ! i \<noteq> cid_arr f' ! i)"
proof
  assume "\<exists>cfg f xi yi f' f'' i.
         gridded f xi yi \<and> clustering cfg f = Inr f' \<and> grow_cluster cfg f' = Inr f''
       \<and> i < n_points f \<and> cid_arr f' ! i \<noteq> 0 \<and> cid_arr f'' ! i \<noteq> 0
       \<and> cid_arr f'' ! i \<noteq> cid_arr f' ! i"
  then obtain cfg f xi yi f' f'' i where
    g: "gridded f xi yi" and cl: "clustering cfg f = Inr f'"
    and gr: "grow_cluster cfg f' = Inr f''"
    and i: "i < n_points f" and nz: "cid_arr f' ! i \<noteq> 0"
    and ne: "cid_arr f'' ! i \<noteq> cid_arr f' ! i"
    by blast
  from builder_ids_kept(3) [OF g cl gr] i nz have "cid_arr f'' ! i = cid_arr f' ! i" by blast
  with ne show False by contradiction
qed

end
